theory Spec2Isabelle
  imports Complex_Main "HOL-Library.Sublist" "HOL-Library.Multiset" "HOL-Library.Monad_Syntax"
begin

section \<open>Conventions of the embedding\<close>

text \<open>
  The recommendation engine of \<^verbatim>\<open>src/app/page.tsx\<close> is embedded function by function.
  \<^item> A JavaScript \<^verbatim>\<open>number\<close> is a \<^typ>\<open>real\<close>: rounding, infinities and NaN of IEEE
    doubles are left out, except where the source produces NaN by itself (an unparseable
    date), which is a value of the model.
  \<^item> A string is a \<^typ>\<open>string\<close>; \<^verbatim>\<open>toLowerCase\<close> folds the letters A to Z and leaves
    every other character as it is.
  \<^item> An optional field \<^verbatim>\<open>f?: T\<close> is a \<^typ>\<open>'a option\<close>, \<open>None\<close> for \<^verbatim>\<open>undefined\<close>.
  \<^item> \<^verbatim>\<open>Date.now()\<close> is an explicit argument \<open>now\<close>, in milliseconds since the epoch.
  \<^item> The module-level list \<^verbatim>\<open>jobAdapters\<close> is an explicit argument of \<open>fetchJobs\<close>, and a
    call of a fetcher is the outcome it has; what \<^verbatim>\<open>console.warn\<close> prints is left out.
  \<^item> The number of arguments that the engine accepts in one call, which differs from
    engine to engine, is an explicit argument \<open>maxArguments\<close> of \<open>fetchJobs\<close>.
\<close>

subsection \<open>Strings\<close>

definition lower_char :: "char \<Rightarrow> char" where
  "lower_char c =
     (case map_of (zip ''ABCDEFGHIJKLMNOPQRSTUVWXYZ'' ''abcdefghijklmnopqrstuvwxyz'') c of
        Some l \<Rightarrow> l
      | None \<Rightarrow> c)"

definition toLowerCase :: "string \<Rightarrow> string" where
  "toLowerCase s = map lower_char s"

text \<open>\<^verbatim>\<open>s.includes(p)\<close>: \<open>p\<close> occurs in \<open>s\<close> as a contiguous run; the empty \<open>p\<close> always does.\<close>

fun str_includes :: "string \<Rightarrow> string \<Rightarrow> bool" where
  "str_includes [] p = (p = [])"
| "str_includes (c # cs) p = (prefix p (c # cs) \<or> str_includes cs p)"

subsection \<open>Data model\<close>

text \<open>
  \<^verbatim>\<open>postedAt?: string\<close> is only ever passed to \<^verbatim>\<open>new Date(s).getTime()\<close>. The field holds
  what that call yields: a time in milliseconds, or \<open>InvalidDate\<close> where JavaScript yields NaN.
  The empty string is falsy in \<^verbatim>\<open>daysSince\<close>, exactly like an absent field, and is \<open>None\<close>.
\<close>

datatype date_iso = DateMs int | InvalidDate

record job =
  job_id :: string
  title :: string
  company :: string
  location :: string
  url :: string
  postedAt :: "date_iso option"
  description :: "string option"
  source :: string
  tags :: "string list option"
  salaryMin :: "real option"
  salaryMax :: "real option"
  workType :: "string option"
  seniority :: "string option"
  remote :: "bool option"
  hybrid :: "bool option"

text \<open>
  \<^verbatim>\<open>weights: Record<string, number>\<close> is a total function from key to number, as the type
  says. The field \<^verbatim>\<open>seniority\<close> of the preferences is \<open>seniority_pref\<close> here, the name
  being taken by the field of \<^typ>\<open>job\<close>.
\<close>

record preferences =
  "keywords" :: "string list"
  blockedKeywords :: "string list"
  preferredLocations :: "string list"
  excludedLocations :: "string list"
  minSalary :: "real option"
  workTypes :: "string list"
  industries :: "string list"
  seniority_pref :: "string list"
  remoteOnly :: bool
  academia :: bool
  consulting :: bool
  publicSector :: bool
  privateSector :: bool
  weights :: "string \<Rightarrow> real"

definition defaultPreferences :: preferences where
  "defaultPreferences =
     \<lparr> keywords = [''organisational psychology'', ''behavioural science'', ''OD'',
                    ''leadership development'', ''culture'', ''statistics'',
                    ''program evaluation'', ''research methods'', ''data analysis''],
       blockedKeywords = [''corruption prevention''],
       preferredLocations = [''Sydney'', ''NSW'', ''Hybrid'', ''Remote''],
       excludedLocations = [],
       minSalary = Some 140000,
       workTypes = [''Full-time'', ''Fixed-term'', ''Contract''],
       industries = [''Consulting'', ''Tech'', ''Healthcare'', ''Higher Education'',
                     ''Financial Services'', ''Public Sector''],
       seniority_pref = [''Senior'', ''Lead'', ''Manager'', ''Director''],
       remoteOnly = False,
       academia = True,
       consulting = True,
       publicSector = True,
       privateSector = True,
       weights = (\<lambda>k. 0)
         (''keywordMatch'' := 1.4, ''negativeKeyword'' := - 2.2, ''locationMatch'' := 0.9,
          ''salary'' := 1.2, ''workType'' := 0.6, ''industry'' := 0.7, ''seniority'' := 0.8,
          ''remote'' := 0.5, ''recency'' := 0.6) \<rparr>"

subsection \<open>Utilities\<close>

text \<open>
  \<^verbatim>\<open>daysSince\<close> yields a number that may be NaN (\<open>None\<close>): 999 without a date, NaN for a
  date that does not parse, and otherwise the whole days between the date and \<open>now\<close>,
  rounded down (\<^verbatim>\<open>Math.floor\<close>, so a date in the future has a negative age).
\<close>

definition daysSince :: "int \<Rightarrow> date_iso option \<Rightarrow> int option" where
  "daysSince now dateIso =
     (case dateIso of
        None \<Rightarrow> Some 999
      | Some InvalidDate \<Rightarrow> None
      | Some (DateMs d) \<Rightarrow> Some ((now - d) div (1000 * 60 * 60 * 24)))"

definition clamp :: "real \<Rightarrow> real \<Rightarrow> real \<Rightarrow> real" where
  "clamp n mn mx = max mn (min mx n)"

definition picks :: "string list" where
  "picks = [''organisational psychology'', ''behavioural'', ''leadership'', ''culture'', ''od'',
            ''learning'', ''l&d'', ''people analytics'', ''data'', ''statistics'', ''evaluation'',
            ''program'', ''policy'', ''consulting'', ''experimental'', ''research'', ''phd'',
            ''doctorate'', ''university'', ''health'', ''clinical'', ''government'', ''ethics'',
            ''risk'', ''psychometrics'', ''survey'']"

definition extractTags :: "job \<Rightarrow> string list" where
  "extractTags j =
     (let blob = toLowerCase (title j @ '' '' @ (case description j of None \<Rightarrow> [] | Some d \<Rightarrow> d))
      in take 12 (filter (\<lambda>p. str_includes blob p) picks))"

subsection \<open>The scoring function\<close>

text \<open>
  Each \<^verbatim>\<open>const\<close> of \<^verbatim>\<open>scoreJob\<close> is a definition of its own, so that a claim about one
  factor can name it; \<open>scoreJob\<close> is their sum, in the order of the source.
\<close>

text \<open>The \<^verbatim>\<open>reduce\<close> that counts the keywords occurring in the title or the description.\<close>

definition keywordHits :: "job \<Rightarrow> string list \<Rightarrow> nat" where
  "keywordHits j kws =
     (let title = toLowerCase (title j);
          desc = toLowerCase (case description j of None \<Rightarrow> [] | Some d \<Rightarrow> d)
      in fold (\<lambda>kw acc. acc + (if str_includes title (toLowerCase kw) \<or>
                                   str_includes desc (toLowerCase kw) then 1 else 0)) kws 0)"

definition kwScore :: "job \<Rightarrow> preferences \<Rightarrow> real" where
  "kwScore j prefs = real (keywordHits j (keywords prefs)) * weights prefs ''keywordMatch''"

definition negScore :: "job \<Rightarrow> preferences \<Rightarrow> real" where
  "negScore j prefs = real (keywordHits j (blockedKeywords prefs)) * weights prefs ''negativeKeyword''"

definition locationScore :: "job \<Rightarrow> preferences \<Rightarrow> real" where
  "locationScore j prefs =
     (if list_ex (\<lambda>l. str_includes (toLowerCase (location j)) (toLowerCase l))
           (preferredLocations prefs)
      then weights prefs ''locationMatch'' else 0)"

text \<open>\<^verbatim>\<open>a || b\<close> on optional numbers: \<open>a\<close> when it is defined and not zero, else \<open>b\<close>.\<close>

definition num_or :: "real option \<Rightarrow> real \<Rightarrow> real" where
  "num_or a b = (case a of None \<Rightarrow> b | Some x \<Rightarrow> if x = 0 then b else x)"

definition offered :: "job \<Rightarrow> real" where
  "offered j = num_or (salaryMax j) (num_or (salaryMin j) 0)"

definition salaryScore :: "job \<Rightarrow> preferences \<Rightarrow> real" where
  "salaryScore j prefs =
     (if offered j \<ge> num_or (minSalary prefs) 0 then weights prefs ''salary'' else 0)"

text \<open>\<^verbatim>\<open>s && xs.includes(s)\<close> on an optional string: the empty string is falsy.\<close>

definition label_in :: "string option \<Rightarrow> string list \<Rightarrow> bool" where
  "label_in s xs = (case s of None \<Rightarrow> False | Some l \<Rightarrow> l \<noteq> [] \<and> l \<in> set xs)"

definition workTypeScore :: "job \<Rightarrow> preferences \<Rightarrow> real" where
  "workTypeScore j prefs =
     (if label_in (workType j) (workTypes prefs) then weights prefs ''workType'' else 0)"

definition industryScore :: "job \<Rightarrow> preferences \<Rightarrow> real" where
  "industryScore j prefs =
     (if list_ex (\<lambda>t. list_ex (\<lambda>i. str_includes (toLowerCase t) (toLowerCase i))
                        (industries prefs))
           (case tags j of None \<Rightarrow> [] | Some ts \<Rightarrow> ts)
      then weights prefs ''industry'' else 0)"

definition seniorityScore :: "job \<Rightarrow> preferences \<Rightarrow> real" where
  "seniorityScore j prefs =
     (if label_in (seniority j) (seniority_pref prefs) then weights prefs ''seniority'' else 0)"

definition remoteScore :: "job \<Rightarrow> preferences \<Rightarrow> real" where
  "remoteScore j prefs =
     (if remote j = Some True \<or> hybrid j = Some True then weights prefs ''remote'' else 0)"

text \<open>\<^verbatim>\<open>d < 21\<close> is false when \<open>d\<close> is NaN.\<close>

definition recencyScore :: "int \<Rightarrow> job \<Rightarrow> preferences \<Rightarrow> real" where
  "recencyScore now j prefs =
     (case daysSince now (postedAt j) of
        None \<Rightarrow> 0
      | Some d \<Rightarrow> if d < 21 then weights prefs ''recency'' * ((21 - real_of_int d) / 21) else 0)"

definition scoreJob :: "int \<Rightarrow> job \<Rightarrow> preferences \<Rightarrow> real" where
  "scoreJob now j prefs =
     kwScore j prefs + negScore j prefs + locationScore j prefs + salaryScore j prefs +
     workTypeScore j prefs + industryScore j prefs + seniorityScore j prefs +
     remoteScore j prefs + recencyScore now j prefs"

subsection \<open>The ranker\<close>

text \<open>\<^verbatim>\<open>{ ...j, tags: j.tags?.length ? j.tags : extractTags(j) }\<close>\<close>

definition enrich :: "job \<Rightarrow> job" where
  "enrich j =
     j\<lparr>tags := Some (case tags j of
                       None \<Rightarrow> extractTags j
                     | Some ts \<Rightarrow> if length ts \<noteq> 0 then ts else extractTags j)\<rparr>"

text \<open>
  \<^verbatim>\<open>Array.prototype.sort\<close> is a built-in of the language, which fixes its result for a
  consistent comparator: the elements in ascending order of the comparator, elements that
  compare equal in their original order (the sort is stable since ECMAScript 2019).
  Insertion from the right computes that result: an element goes in front of the first
  element it does not compare greater than.
\<close>

fun insert_by :: "('a \<Rightarrow> 'a \<Rightarrow> real) \<Rightarrow> 'a \<Rightarrow> 'a list \<Rightarrow> 'a list" where
  "insert_by cmp x [] = [x]"
| "insert_by cmp x (y # ys) = (if cmp x y \<le> 0 then x # y # ys else y # insert_by cmp x ys)"

definition array_sort :: "('a \<Rightarrow> 'a \<Rightarrow> real) \<Rightarrow> 'a list \<Rightarrow> 'a list" where
  "array_sort cmp xs = foldr (insert_by cmp) xs []"

text \<open>
  \<^verbatim>\<open>.map((job) => ({ job, score: scoreJob(job, prefs) }))\<close>: every call of \<^verbatim>\<open>scoreJob\<close>
  reads the clock by itself, so \<open>now i\<close> is the reading during the call for the posting
  at index \<open>i\<close>.
\<close>

definition score_all :: "(nat \<Rightarrow> int) \<Rightarrow> job list \<Rightarrow> preferences \<Rightarrow> (job \<times> real) list" where
  "score_all now js prefs = map (\<lambda>(i, j). (j, scoreJob (now i) j prefs)) (enumerate 0 js)"

text \<open>The list of \<^verbatim>\<open>{ job, score }\<close> after \<^verbatim>\<open>.sort((a, b) => b.score - a.score)\<close>.\<close>

definition reRank_scored :: "(nat \<Rightarrow> int) \<Rightarrow> job list \<Rightarrow> preferences \<Rightarrow> (job \<times> real) list" where
  "reRank_scored now jobs prefs =
     array_sort (\<lambda>a b. snd b - snd a) (score_all now (map enrich jobs) prefs)"

definition reRank :: "(nat \<Rightarrow> int) \<Rightarrow> job list \<Rightarrow> preferences \<Rightarrow> job list" where
  "reRank now jobs prefs = map fst (reRank_scored now jobs prefs)"

subsection \<open>The feedback learner, on values\<close>

text \<open>
  \<open>newPrefs\<close> of the source is threaded through the statements as a value. The model
  with the objects on a heap, where sharing between \<open>prefs\<close> and \<open>newPrefs\<close> is visible,
  follows below.
\<close>

definition set_weight :: "string \<Rightarrow> real \<Rightarrow> preferences \<Rightarrow> preferences" where
  "set_weight k v p = p\<lparr>weights := (weights p)(k := v)\<rparr>"

text \<open>The body of the \<^verbatim>\<open>forEach\<close> over the tags.\<close>

definition learn_tag :: "bool \<Rightarrow> string \<Rightarrow> preferences \<Rightarrow> preferences" where
  "learn_tag liked t p =
     (let tLower = toLowerCase t in
      if liked then
        (if tLower \<notin> set (keywords p) then p\<lparr>keywords := keywords p @ [tLower]\<rparr> else p)
      else
        (if tLower \<notin> set (blockedKeywords p)
         then p\<lparr>blockedKeywords := blockedKeywords p @ [tLower]\<rparr> else p))"

text \<open>\<^verbatim>\<open>selectedTags.length ? selectedTags : job.tags || []\<close>\<close>

definition tags_to_learn :: "job \<Rightarrow> string list \<Rightarrow> string list" where
  "tags_to_learn j selectedTags =
     (if length selectedTags \<noteq> 0 then selectedTags
      else (case tags j of None \<Rightarrow> [] | Some ts \<Rightarrow> ts))"

definition learnFromFeedback ::
  "preferences \<Rightarrow> job \<Rightarrow> bool \<Rightarrow> string \<Rightarrow> string list \<Rightarrow> preferences" where
  "learnFromFeedback prefs j liked notes selectedTags =
     (let delta = (if liked then 0.15 else - 0.12);
          p1 = (if liked
                then set_weight ''keywordMatch''
                       (clamp (weights prefs ''keywordMatch'' + 0.05) 0.6 2.2) prefs
                else prefs);
          p2 = (if \<not> liked
                then set_weight ''negativeKeyword''
                       (clamp (weights p1 ''negativeKeyword'' - 0.05) (- 3) (- 0.6)) p1
                else p1);
          p3 = fold (learn_tag liked) (tags_to_learn j selectedTags) p2;
          n = toLowerCase notes;
          p4 = (if str_includes n ''salary'' \<or> str_includes n ''pay''
                then set_weight ''salary'' (clamp (weights p3 ''salary'' + delta) 0.2 2.4) p3
                else p3);
          p5 = (if str_includes n ''remote'' \<or> str_includes n ''hybrid''
                then set_weight ''remote'' (clamp (weights p4 ''remote'' + delta) 0 1.4) p4
                else p4);
          p6 = (if str_includes n ''leadership'' \<or> str_includes n ''manager'' \<or>
                   str_includes n ''director''
                then set_weight ''seniority'' (clamp (weights p5 ''seniority'' + delta) 0.2 2) p5
                else p5);
          p7 = (if str_includes n ''consult'' then p6\<lparr>consulting := liked\<rparr> else p6);
          p8 = (if str_includes n ''university'' \<or> str_includes n ''academic''
                then p7\<lparr>academia := liked\<rparr> else p7)
      in p8)"

text \<open>One feedback event, and the learner run over a sequence of them.\<close>

record feedback =
  fb_job :: job
  fb_liked :: bool
  fb_notes :: string
  fb_tags :: "string list"

definition learn_event :: "feedback \<Rightarrow> preferences \<Rightarrow> preferences" where
  "learn_event e p = learnFromFeedback p (fb_job e) (fb_liked e) (fb_notes e) (fb_tags e)"

definition learn_all :: "preferences \<Rightarrow> feedback list \<Rightarrow> preferences" where
  "learn_all p es = fold learn_event es p"

subsection \<open>Source aggregation\<close>

text \<open>
  What a call \<^verbatim>\<open>a.fetcher(query, location)\<close> does: it returns a promise that is fulfilled
  with a list, or rejected, or never settled; a fetcher that is not an \<^verbatim>\<open>async\<close> function
  may also throw before it returns any promise.
\<close>

datatype outcome = Fulfilled "job list" | Rejected string | Pending | Throws string

record adapter =
  name :: string
  enabled :: bool
  fetcher :: "string \<Rightarrow> string \<Rightarrow> outcome"

text \<open>What the caller of an \<^verbatim>\<open>async\<close> function observes.\<close>

datatype 'a promise = Returns 'a | Raises string | NeverSettles

text \<open>
  \<^verbatim>\<open>adapters.map((a) => a.fetcher(query, location))\<close> calls the fetchers in order; the
  first one that throws ends the \<^verbatim>\<open>map\<close>, and with it \<^verbatim>\<open>fetchJobs\<close>.
\<close>

fun first_throw :: "outcome list \<Rightarrow> string option" where
  "first_throw [] = None"
| "first_throw (Throws r # os) = Some r"
| "first_throw (_ # os) = first_throw os"

text \<open>
  The body of the \<^verbatim>\<open>forEach\<close> over the settled batches: a rejected batch is only reported
  with \<^verbatim>\<open>console.warn\<close>, a fulfilled one is pushed onto \<open>jobs\<close>. The call
  \<^verbatim>\<open>jobs.push(...b.value)\<close> passes every posting of the batch as an argument of its own, and
  the engine throws a \<^verbatim>\<open>RangeError\<close> when there are more of them than it accepts.
\<close>

definition push_batch :: "nat \<Rightarrow> outcome \<Rightarrow> job list \<Rightarrow> string + job list" where
  "push_batch maxArguments b jobs =
     (case b of
        Fulfilled v \<Rightarrow> if length v > maxArguments then Inl ''RangeError'' else Inr (jobs @ v)
      | _ \<Rightarrow> Inr jobs)"

text \<open>The \<^verbatim>\<open>forEach\<close> itself: it ends at the first batch whose push throws.\<close>

fun push_all :: "nat \<Rightarrow> outcome list \<Rightarrow> job list \<Rightarrow> string + job list" where
  "push_all maxArguments [] jobs = Inr jobs"
| "push_all maxArguments (b # bs) jobs =
     (case push_batch maxArguments b jobs of
        Inl e \<Rightarrow> Inl e
      | Inr jobs' \<Rightarrow> push_all maxArguments bs jobs')"

text \<open>
  A JavaScript \<^verbatim>\<open>Map\<close> keeps its keys in the order of their first insertion: it is an
  association list, where \<^verbatim>\<open>set\<close> replaces the value of a key that is present, in place,
  and appends a key that is not.
\<close>

fun map_set :: "(string \<times> 'v) list \<Rightarrow> string \<Rightarrow> 'v \<Rightarrow> (string \<times> 'v) list" where
  "map_set [] k v = [(k, v)]"
| "map_set ((k', v') # m) k v =
     (if k' = k then (k, v) # m else (k', v') # map_set m k v)"

text \<open>The template string \<^verbatim>\<open>`${j.source}-${j.id}`\<close>.\<close>

definition dedup_key :: "job \<Rightarrow> string" where
  "dedup_key j = source j @ ''-'' @ job_id j"

definition dedup :: "job list \<Rightarrow> job list" where
  "dedup jobs = map snd (fold (\<lambda>j m. map_set m (dedup_key j) j) jobs [])"

text \<open>
  An exception inside the \<^verbatim>\<open>async\<close> function, from the \<^verbatim>\<open>map\<close> before the \<^verbatim>\<open>await\<close> or from
  the \<^verbatim>\<open>forEach\<close> after it, rejects the promise that \<open>fetchJobs\<close> returned.
\<close>

definition fetchJobs ::
  "nat \<Rightarrow> adapter list \<Rightarrow> string \<Rightarrow> string \<Rightarrow> bool \<Rightarrow> job list promise" where
  "fetchJobs maxArguments jobAdapters query location' enabledOnly =
     (let adapters = filter (\<lambda>a. if enabledOnly then enabled a else True) jobAdapters;
          calls = map (\<lambda>a. fetcher a query location') adapters
      in case first_throw calls of
           Some r \<Rightarrow> Raises r
         | None \<Rightarrow>
             if Pending \<in> set calls then NeverSettles
             else (case push_all maxArguments calls [] of
                     Inl e \<Rightarrow> Raises e
                   | Inr jobs \<Rightarrow> Returns (dedup jobs)))"

subsection \<open>The feedback learner, on a heap of objects\<close>

text \<open>
  In JavaScript an object or an array is a reference, and \<^verbatim>\<open>{ ...prefs }\<close> copies the
  references held by the fields, not the arrays behind them. Whether the caller's profile
  survives a call is a question about this sharing, so the objects live on a heap here:
  a list of cells, the address of a cell being its index, and allocation appending a cell.
  The profile object holds the addresses of its arrays and of its weight record.
  The posting and the selected tags are only read by the learner and stay values.
\<close>

type_synonym addr = nat

record prefs_obj =
  keywords_ref :: addr
  blockedKeywords_ref :: addr
  preferredLocations_ref :: addr
  excludedLocations_ref :: addr
  minSalary_val :: "real option"
  workTypes_ref :: addr
  industries_ref :: addr
  seniority_ref :: addr
  remoteOnly_val :: bool
  academia_val :: bool
  consulting_val :: bool
  publicSector_val :: bool
  privateSector_val :: bool
  weights_ref :: addr

datatype obj = Arr "string list" | Rec "string \<Rightarrow> real" | Prefs prefs_obj

type_synonym heap = "obj list"

definition alloc :: "obj \<Rightarrow> heap \<Rightarrow> addr \<times> heap" where
  "alloc v h = (length h, h @ [v])"

text \<open>
  Reading a cell as an array, a weight record or a profile. The types of the source rule
  out a dangling address and a cell of the wrong kind; the model answers \<open>None\<close> there.
\<close>

definition get_arr :: "heap \<Rightarrow> addr \<Rightarrow> string list option" where
  "get_arr h a = (if a < length h then (case h ! a of Arr xs \<Rightarrow> Some xs | _ \<Rightarrow> None) else None)"

definition get_rec :: "heap \<Rightarrow> addr \<Rightarrow> (string \<Rightarrow> real) option" where
  "get_rec h a = (if a < length h then (case h ! a of Rec w \<Rightarrow> Some w | _ \<Rightarrow> None) else None)"

definition get_prefs :: "heap \<Rightarrow> addr \<Rightarrow> prefs_obj option" where
  "get_prefs h a = (if a < length h then (case h ! a of Prefs po \<Rightarrow> Some po | _ \<Rightarrow> None) else None)"

text \<open>The profile that an address denotes: the object with its arrays and weights read out.\<close>

definition read_prefs :: "heap \<Rightarrow> addr \<Rightarrow> preferences option" where
  "read_prefs h a =
     do {
       po \<leftarrow> get_prefs h a;
       ks \<leftarrow> get_arr h (keywords_ref po);
       bs \<leftarrow> get_arr h (blockedKeywords_ref po);
       pl \<leftarrow> get_arr h (preferredLocations_ref po);
       el \<leftarrow> get_arr h (excludedLocations_ref po);
       wt \<leftarrow> get_arr h (workTypes_ref po);
       ind \<leftarrow> get_arr h (industries_ref po);
       sen \<leftarrow> get_arr h (seniority_ref po);
       w \<leftarrow> get_rec h (weights_ref po);
       Some \<lparr> keywords = ks, blockedKeywords = bs, preferredLocations = pl,
              excludedLocations = el, minSalary = minSalary_val po, workTypes = wt,
              industries = ind, seniority_pref = sen, remoteOnly = remoteOnly_val po,
              academia = academia_val po, consulting = consulting_val po,
              publicSector = publicSector_val po, privateSector = privateSector_val po,
              weights = w \<rparr>
     }"

text \<open>\<^verbatim>\<open>newPrefs.weights[k] = f(newPrefs.weights[k])\<close>: a write into the weight record.\<close>

definition set_weight_heap :: "addr \<Rightarrow> string \<Rightarrow> (real \<Rightarrow> real) \<Rightarrow> heap \<Rightarrow> heap option" where
  "set_weight_heap np k f h =
     do {
       po \<leftarrow> get_prefs h np;
       w \<leftarrow> get_rec h (weights_ref po);
       Some (h[weights_ref po := Rec (w(k := f (w k)))])
     }"

text \<open>\<^verbatim>\<open>newPrefs.f = v\<close> for a field held in the profile object itself.\<close>

definition set_field_heap :: "addr \<Rightarrow> (prefs_obj \<Rightarrow> prefs_obj) \<Rightarrow> heap \<Rightarrow> heap option" where
  "set_field_heap np f h =
     do {
       po \<leftarrow> get_prefs h np;
       Some (h[np := Prefs (f po)])
     }"

text \<open>
  The body of the \<^verbatim>\<open>forEach\<close>: \<^verbatim>\<open>[...newPrefs.keywords, tLower]\<close> allocates a new array,
  and the assignment stores its address in the field of \<open>newPrefs\<close>.
\<close>

definition learn_tag_heap :: "bool \<Rightarrow> addr \<Rightarrow> string \<Rightarrow> heap \<Rightarrow> heap option" where
  "learn_tag_heap liked np t h =
     (let tLower = toLowerCase t in
      if liked then
        do {
          po \<leftarrow> get_prefs h np;
          ks \<leftarrow> get_arr h (keywords_ref po);
          if tLower \<notin> set ks
          then (let (a, h') = alloc (Arr (ks @ [tLower])) h
                in set_field_heap np (\<lambda>po. po\<lparr>keywords_ref := a\<rparr>) h')
          else Some h
        }
      else
        do {
          po \<leftarrow> get_prefs h np;
          bs \<leftarrow> get_arr h (blockedKeywords_ref po);
          if tLower \<notin> set bs
          then (let (a, h') = alloc (Arr (bs @ [tLower])) h
                in set_field_heap np (\<lambda>po. po\<lparr>blockedKeywords_ref := a\<rparr>) h')
          else Some h
        })"

fun forEach :: "('a \<Rightarrow> heap \<Rightarrow> heap option) \<Rightarrow> 'a list \<Rightarrow> heap \<Rightarrow> heap option" where
  "forEach f [] h = Some h"
| "forEach f (x # xs) h = (case f x h of None \<Rightarrow> None | Some h' \<Rightarrow> forEach f xs h')"

text \<open>A guarded statement \<^verbatim>\<open>if (c) s\<close>.\<close>

definition when_heap :: "bool \<Rightarrow> (heap \<Rightarrow> heap option) \<Rightarrow> heap \<Rightarrow> heap option" where
  "when_heap c s h = (if c then s h else Some h)"

definition learnFromFeedback_heap ::
  "heap \<Rightarrow> addr \<Rightarrow> job \<Rightarrow> bool \<Rightarrow> string \<Rightarrow> string list \<Rightarrow> (addr \<times> heap) option" where
  "learnFromFeedback_heap h prefs j liked notes selectedTags =
     do {
       let delta = (if liked then 0.15 else - 0.12);
       po \<leftarrow> get_prefs h prefs;
       w \<leftarrow> get_rec h (weights_ref po);
       let (wa, h) = alloc (Rec w) h;
       let (newPrefs, h) = alloc (Prefs (po\<lparr>weights_ref := wa\<rparr>)) h;
       h \<leftarrow> when_heap liked
              (set_weight_heap newPrefs ''keywordMatch'' (\<lambda>x. clamp (x + 0.05) 0.6 2.2)) h;
       h \<leftarrow> when_heap (\<not> liked)
              (set_weight_heap newPrefs ''negativeKeyword'' (\<lambda>x. clamp (x - 0.05) (- 3) (- 0.6))) h;
       h \<leftarrow> forEach (learn_tag_heap liked newPrefs) (tags_to_learn j selectedTags) h;
       let n = toLowerCase notes;
       h \<leftarrow> when_heap (str_includes n ''salary'' \<or> str_includes n ''pay'')
              (set_weight_heap newPrefs ''salary'' (\<lambda>x. clamp (x + delta) 0.2 2.4)) h;
       h \<leftarrow> when_heap (str_includes n ''remote'' \<or> str_includes n ''hybrid'')
              (set_weight_heap newPrefs ''remote'' (\<lambda>x. clamp (x + delta) 0 1.4)) h;
       h \<leftarrow> when_heap (str_includes n ''leadership'' \<or> str_includes n ''manager'' \<or>
                         str_includes n ''director'')
              (set_weight_heap newPrefs ''seniority'' (\<lambda>x. clamp (x + delta) 0.2 2)) h;
       h \<leftarrow> when_heap (str_includes n ''consult'')
              (set_field_heap newPrefs (\<lambda>po. po\<lparr>consulting_val := liked\<rparr>)) h;
       h \<leftarrow> when_heap (str_includes n ''university'' \<or> str_includes n ''academic'')
              (set_field_heap newPrefs (\<lambda>po. po\<lparr>academia_val := liked\<rparr>)) h;
       Some (newPrefs, h)
     }"

section \<open>Notions used in the statements\<close>

text \<open>The five clamp ranges of the learner, as a predicate on a profile.\<close>

definition clamp_bounds :: "preferences \<Rightarrow> bool" where
  "clamp_bounds p \<longleftrightarrow>
     0.6 \<le> weights p ''keywordMatch'' \<and> weights p ''keywordMatch'' \<le> 2.2 \<and>
     - 3.0 \<le> weights p ''negativeKeyword'' \<and> weights p ''negativeKeyword'' \<le> - 0.6 \<and>
     0.2 \<le> weights p ''salary'' \<and> weights p ''salary'' \<le> 2.4 \<and>
     0.0 \<le> weights p ''remote'' \<and> weights p ''remote'' \<le> 1.4 \<and>
     0.2 \<le> weights p ''seniority'' \<and> weights p ''seniority'' \<le> 2.0"

definition in_range :: "real \<Rightarrow> real \<Rightarrow> real \<Rightarrow> bool" where
  "in_range lo hi x \<longleftrightarrow> lo \<le> x \<and> x \<le> hi"

text \<open>A list without its repetitions, every element at the place of its first occurrence.\<close>

primrec first_occurrences :: "'a list \<Rightarrow> 'a list" where
  "first_occurrences [] = []"
| "first_occurrences (x # xs) = x # filter (\<lambda>y. y \<noteq> x) (first_occurrences xs)"

text \<open>An outcome of a fetcher that \<^verbatim>\<open>Promise.allSettled\<close> can wait for.\<close>

definition settles :: "outcome \<Rightarrow> bool" where
  "settles b = (case b of Fulfilled v \<Rightarrow> True | Rejected r \<Rightarrow> True | _ \<Rightarrow> False)"

text \<open>The postings that an outcome contributes: those of a fulfilled promise.\<close>

definition batch_jobs :: "outcome \<Rightarrow> job list" where
  "batch_jobs b = (case b of Fulfilled v \<Rightarrow> v | _ \<Rightarrow> [])"

text \<open>The adapters that \<open>fetchJobs\<close> calls.\<close>

definition invoked :: "adapter list \<Rightarrow> bool \<Rightarrow> adapter list" where
  "invoked jobAdapters enabledOnly = filter (\<lambda>a. enabledOnly \<longrightarrow> enabled a) jobAdapters"

text \<open>
  A profile object of the heap represents a profile value: its addresses hold the lists
  and the weights of the value, and its own fields are those of the value.
\<close>

definition represents :: "heap \<Rightarrow> prefs_obj \<Rightarrow> preferences \<Rightarrow> bool" where
  "represents h po Q \<longleftrightarrow>
     get_arr h (keywords_ref po) = Some (keywords Q) \<and>
     get_arr h (blockedKeywords_ref po) = Some (blockedKeywords Q) \<and>
     get_arr h (preferredLocations_ref po) = Some (preferredLocations Q) \<and>
     get_arr h (excludedLocations_ref po) = Some (excludedLocations Q) \<and>
     get_arr h (workTypes_ref po) = Some (workTypes Q) \<and>
     get_arr h (industries_ref po) = Some (industries Q) \<and>
     get_arr h (seniority_ref po) = Some (seniority_pref Q) \<and>
     get_rec h (weights_ref po) = Some (weights Q) \<and>
     minSalary_val po = minSalary Q \<and>
     remoteOnly_val po = remoteOnly Q \<and>
     academia_val po = academia Q \<and>
     consulting_val po = consulting Q \<and>
     publicSector_val po = publicSector Q \<and>
     privateSector_val po = privateSector Q"

text \<open>
  The state of the heap during a call on the heap \<open>h0\<close>: the cells of \<open>h0\<close> are as they
  were, and the new profile at \<open>np\<close>, with a weight record of its own, represents \<open>Q\<close>.
\<close>

definition learner_inv :: "heap \<Rightarrow> addr \<Rightarrow> heap \<Rightarrow> preferences \<Rightarrow> bool" where
  "learner_inv h0 np h Q \<longleftrightarrow>
     take (length h0) h = h0 \<and> length h0 \<le> np \<and>
     (\<exists>po. get_prefs h np = Some po \<and> length h0 \<le> weights_ref po \<and> represents h po Q)"

text \<open>Postings, feedback events and adapters for the concrete instances.\<close>

definition sample_job :: job where
  "sample_job =
     \<lparr> job_id = ''1'', title = ''OD Lead'', company = ''Canva'', location = ''Sydney'',
       url = ''https://example.com/jobs/1'', postedAt = Some (DateMs 0), description = None,
       source = ''DEMO'', tags = Some [''Leadership''], salaryMin = None,
       salaryMax = Some 150000, workType = Some ''Contract'', seniority = Some ''Lead'',
       remote = None, hybrid = Some True \<rparr>"

definition plain_job :: job where
  "plain_job =
     \<lparr> job_id = ''2'', title = ''Clerk'', company = ''Acme'', location = ''Perth'',
       url = ''https://example.com/jobs/2'', postedAt = None, description = None,
       source = ''DEMO'', tags = None, salaryMin = None, salaryMax = None, workType = None,
       seniority = None, remote = None, hybrid = None \<rparr>"

text \<open>The default profile with one weight set, as the weight slider of the page sets it.\<close>

definition with_weight :: "string \<Rightarrow> real \<Rightarrow> preferences" where
  "with_weight k v = defaultPreferences\<lparr>weights := (weights defaultPreferences)(k := v)\<rparr>"

definition liked_event :: feedback where
  "liked_event =
     \<lparr> fb_job = sample_job, fb_liked = True, fb_notes = ''pay'', fb_tags = [''Culture''] \<rparr>"

definition disliked_event :: feedback where
  "disliked_event =
     \<lparr> fb_job = plain_job, fb_liked = False, fb_notes = [], fb_tags = [] \<rparr>"

definition third_job :: job where
  "third_job = plain_job\<lparr>job_id := ''3'', title := ''Porter''\<rparr>"

definition plain_job_updated :: job where
  "plain_job_updated = plain_job\<lparr>title := ''Clerk II''\<rparr>"

definition seek_job :: job where
  "seek_job = plain_job\<lparr>source := ''SEEK'', job_id := ''AU-17'', title := ''Analyst''\<rparr>"

definition seek_job_updated :: job where
  "seek_job_updated = seek_job\<lparr>title := ''Senior Analyst''\<rparr>"

definition seek_au_job :: job where
  "seek_au_job = plain_job\<lparr>source := ''SEEK-AU'', job_id := ''17'', title := ''Nurse''\<rparr>"

text \<open>An engine that accepts a hundred thousand arguments in one call.\<close>

definition sample_limit :: nat where
  "sample_limit = 100000"

definition failing_adapter :: adapter where
  "failing_adapter = \<lparr> name = ''IWFNSW'', enabled = True, fetcher = (\<lambda>q l. Rejected ''timeout'') \<rparr>"

definition returning :: "string \<Rightarrow> job list \<Rightarrow> adapter" where
  "returning n js = \<lparr> name = n, enabled = True, fetcher = (\<lambda>q l. Fulfilled js) \<rparr>"

text \<open>The default profile as objects on a heap, the profile object at address 8.\<close>

definition default_heap :: heap where
  "default_heap =
     [Arr (keywords defaultPreferences), Arr (blockedKeywords defaultPreferences),
      Arr (preferredLocations defaultPreferences), Arr (excludedLocations defaultPreferences),
      Arr (workTypes defaultPreferences), Arr (industries defaultPreferences),
      Arr (seniority_pref defaultPreferences), Rec (weights defaultPreferences),
      Prefs \<lparr> keywords_ref = 0, blockedKeywords_ref = 1, preferredLocations_ref = 2,
              excludedLocations_ref = 3, minSalary_val = Some 140000, workTypes_ref = 4,
              industries_ref = 5, seniority_ref = 6, remoteOnly_val = False,
              academia_val = True, consulting_val = True, publicSector_val = True,
              privateSector_val = True, weights_ref = 7 \<rparr>]"

section \<open>The scoring function\<close>

text \<open>
  Claim C9. The recency factor is \<open>weight * (21 - age) / 21\<close> when the age of the posting
  in whole days is below 21, and 0 otherwise: a posting of age 0 (dated within the last 24
  hours) contributes the full weight, a posting dated 21 days ago or more contributes 0,
  and so does a posting without a date (age 999) or with a date that does not parse. The
  factor is the last summand of the score.
\<close>

theorem recency_factor:
  "(postedAt j = None \<longrightarrow> recencyScore now j prefs = 0) \<and>
   (postedAt j = Some InvalidDate \<longrightarrow> recencyScore now j prefs = 0) \<and>
   (\<forall>t. postedAt j = Some (DateMs t) \<longrightarrow>
      (let age = (now - t) div 86400000 in
         (age < 21 \<longrightarrow>
            recencyScore now j prefs = weights prefs ''recency'' * ((21 - real_of_int age) / 21)) \<and>
         (\<not> age < 21 \<longrightarrow> recencyScore now j prefs = 0)) \<and>
      (t \<le> now \<and> now < t + 86400000 \<longrightarrow>
         recencyScore now j prefs = weights prefs ''recency'' * 1) \<and>
      (21 * 86400000 \<le> now - t \<longrightarrow> recencyScore now j prefs = 0)) \<and>
   scoreJob now j prefs =
     kwScore j prefs + negScore j prefs + locationScore j prefs + salaryScore j prefs +
     workTypeScore j prefs + industryScore j prefs + seniorityScore j prefs +
     remoteScore j prefs + recencyScore now j prefs"
proof -
  have today: "(now - t) div 86400000 = 0" if "t \<le> now" "now < t + 86400000" for t
    using that by (simp add: div_pos_pos_trivial)
  have old: "21 \<le> (now - t) div 86400000" if "21 * 86400000 \<le> now - t" for t
  proof -
    have "21 * 86400000 div 86400000 \<le> (now - t) div (86400000::int)"
      using that by (intro zdiv_mono1) simp_all
    then show ?thesis by simp
  qed
  show ?thesis
    using today old
    by (auto simp: recencyScore_def daysSince_def scoreJob_def Let_def)
qed

theorem recency_factor_witness:
  "recencyScore 5 plain_job defaultPreferences = 0 \<and>
   recencyScore 5 sample_job defaultPreferences = 0.6 \<and>
   recencyScore (3 * 86400000) sample_job defaultPreferences = 0.6 * (18 / 21) \<and>
   recencyScore (21 * 86400000) sample_job defaultPreferences = 0"
proof -
  have p: "postedAt plain_job = None"
    by (simp add: plain_job_def)
  have s: "postedAt sample_job = Some (DateMs 0)"
    by (simp add: sample_job_def)
  have w: "weights defaultPreferences ''recency'' = 0.6"
    by (simp add: defaultPreferences_def)
  show ?thesis
    using recency_factor [of plain_job 5 defaultPreferences]
      recency_factor [of sample_job 5 defaultPreferences]
      recency_factor [of sample_job "3 * 86400000" defaultPreferences]
      recency_factor [of sample_job "21 * 86400000" defaultPreferences]
    by (simp add: p s w)
qed

text \<open>
  Claim C1, as stated: two calls of \<open>scoreJob\<close> on the same posting and profile return the
  same value. The function reads the clock through \<open>daysSince\<close>: the same posting and
  profile score differently one day later.
\<close>

theorem scoreJob_reads_clock:
  "scoreJob 0 sample_job defaultPreferences \<noteq> scoreJob 86400000 sample_job defaultPreferences"
  by (simp add: scoreJob_def recencyScore_def daysSince_def sample_job_def defaultPreferences_def)

text \<open>
  Claim C1, amended: the score is a function of the posting, the profile and the age of
  the posting in whole days at the time of the call. Two calls on the same posting and
  profile return the same value whenever \<open>daysSince\<close> is the same at both, as it is for a
  posting without a date.
\<close>

theorem scoreJob_same_age:
  "daysSince now1 (postedAt j) = daysSince now2 (postedAt j) \<Longrightarrow>
   scoreJob now1 j prefs = scoreJob now2 j prefs"
  by (simp add: scoreJob_def recencyScore_def)

theorem scoreJob_same_age_witness:
  "daysSince 0 (postedAt sample_job) = daysSince 1000 (postedAt sample_job) \<and>
   scoreJob 0 sample_job defaultPreferences = scoreJob 1000 sample_job defaultPreferences"
proof -
  have h: "daysSince 0 (postedAt sample_job) = daysSince 1000 (postedAt sample_job)"
    by (simp add: daysSince_def sample_job_def)
  show ?thesis
    using h scoreJob_same_age [OF h, of defaultPreferences] by simp
qed

text \<open>A posting without a date scores the same at any time.\<close>

lemma scoreJob_no_date:
  "postedAt j = None \<Longrightarrow> scoreJob now1 j prefs = scoreJob now2 j prefs"
  by (simp add: scoreJob_def recencyScore_def daysSince_def)

text \<open>A date in the future has a negative age, and the factor exceeds the weight.\<close>

lemma recency_future_date:
  assumes "postedAt j = Some (DateMs t)" and "now < t" and "0 < weights prefs ''recency''"
  shows "weights prefs ''recency'' < recencyScore now j prefs"
proof -
  have "(now - t) div 86400000 < 0"
    using assms(2) by (simp add: div_neg_pos_less0)
  then have d: "real_of_int ((now - t) div 86400000) < 0"
    by simp
  then have "1 < (21 - real_of_int ((now - t) div 86400000)) / 21"
    by simp
  with assms(3) have "weights prefs ''recency'' * 1 <
      weights prefs ''recency'' * ((21 - real_of_int ((now - t) div 86400000)) / 21)"
    by (intro mult_strict_left_mono)
  with d show ?thesis
    using assms(1) by (simp add: recencyScore_def daysSince_def)
qed

section \<open>The ranker\<close>

text \<open>
  With the comparator \<open>b.score - a.score\<close> the model of \<^verbatim>\<open>sort\<close> is the library's stable
  insertion sort on the negated score.
\<close>

lemma insert_by_insort_key:
  "insert_by (\<lambda>a b. f b - f a) x ys = insort_key (\<lambda>a. - f a) x ys"
  by (induction ys) auto

lemma array_sort_sort_key:
  "array_sort (\<lambda>a b. f b - f a) xs = sort_key (\<lambda>a. - f a) xs"
  by (induction xs) (simp_all add: array_sort_def insert_by_insort_key)

lemma array_sort_sorted:
  "sorted_wrt (\<lambda>a b. f a \<ge> f b) (array_sort (\<lambda>a b. f b - f a) xs)"
proof -
  have "sorted (map (\<lambda>a. - f a) (sort_key (\<lambda>a. - f a) xs))"
    by (rule sorted_sort_key)
  then show ?thesis
    by (simp add: array_sort_sort_key sorted_map)
qed

lemma array_sort_stable:
  "filter (\<lambda>x. f x = s) (array_sort (\<lambda>a b. f b - f a) xs) = filter (\<lambda>x. f x = s) xs"
proof -
  have "filter (\<lambda>x. - f x = - s) (sort_key (\<lambda>a. - f a) xs) = filter (\<lambda>x. - f x = - s) xs"
    by (rule sort_key_stable)
  then show ?thesis
    by (simp add: array_sort_sort_key)
qed

lemma array_sort_mset: "mset (array_sort (\<lambda>a b. f b - f a) xs) = mset xs"
  by (simp add: array_sort_sort_key)

lemma array_sort_set: "set (array_sort (\<lambda>a b. f b - f a) xs) = set xs"
  by (simp add: array_sort_sort_key)

text \<open>When the clock does not move during the call, the score is a function of the posting.\<close>

lemma score_all_const:
  "score_all (\<lambda>i. t) js prefs = map (\<lambda>j. (j, scoreJob t j prefs)) js"
proof -
  have "map (\<lambda>(i, j). g j) (enumerate n js) = map g js" for g :: "job \<Rightarrow> job \<times> real" and n
    by (induction js arbitrary: n) simp_all
  then show ?thesis
    by (simp add: score_all_def)
qed

lemma reRank_scored_const_snd:
  assumes "x \<in> set (reRank_scored (\<lambda>i. t) jobs prefs)"
  shows "snd x = scoreJob t (fst x) prefs"
proof -
  have "x \<in> set (map (\<lambda>j. (j, scoreJob t j prefs)) (map enrich jobs))"
    using assms unfolding reRank_scored_def score_all_const array_sort_set .
  then obtain j where "x = (j, scoreJob t j prefs)"
    by (auto simp only: set_map)
  then show ?thesis by simp
qed

lemma reRank_const_sorted:
  "sorted_wrt (\<lambda>a b. scoreJob t a prefs \<ge> scoreJob t b prefs) (reRank (\<lambda>i. t) jobs prefs)"
proof -
  have "sorted_wrt (\<lambda>a b. snd a \<ge> snd b) (reRank_scored (\<lambda>i. t) jobs prefs)"
    unfolding reRank_scored_def by (rule array_sort_sorted)
  then have "sorted_wrt (\<lambda>a b. scoreJob t (fst a) prefs \<ge> scoreJob t (fst b) prefs)
               (reRank_scored (\<lambda>i. t) jobs prefs)"
    by (rule sorted_wrt_mono_rel [rotated]) (simp add: reRank_scored_const_snd)
  then show ?thesis
    by (simp add: reRank_def sorted_wrt_map)
qed

lemma reRank_const_stable:
  "filter (\<lambda>j. scoreJob t j prefs = s) (reRank (\<lambda>i. t) jobs prefs) =
   filter (\<lambda>j. scoreJob t j prefs = s) (map enrich jobs)"
proof -
  let ?r = "reRank_scored (\<lambda>i. t) jobs prefs"
  have "filter (\<lambda>j. scoreJob t j prefs = s) (map fst ?r) =
        map fst (filter (\<lambda>x. scoreJob t (fst x) prefs = s) ?r)"
    by (simp add: filter_map comp_def)
  also have "filter (\<lambda>x. scoreJob t (fst x) prefs = s) ?r = filter (\<lambda>x. snd x = s) ?r"
    by (rule filter_cong) (simp_all add: reRank_scored_const_snd)
  also have "\<dots> = filter (\<lambda>x. snd x = s) (map (\<lambda>j. (j, scoreJob t j prefs)) (map enrich jobs))"
    unfolding reRank_scored_def score_all_const by (rule array_sort_stable)
  also have "map fst \<dots> = filter (\<lambda>j. scoreJob t j prefs = s) (map enrich jobs)"
    by (simp add: filter_map comp_def)
  finally show ?thesis
    by (simp add: reRank_def)
qed

text \<open>
  Claim C2. \<open>reRank\<close> returns the (enriched) postings in the order of non-increasing
  computed score, and the sort is stable: for every score, the postings that were given
  that score come out in the order in which they went in. The computed scores are the
  second components of \<open>reRank_scored\<close>, of which \<open>reRank\<close> is the first components; when
  the clock reads the same for every posting of the call, the computed score of a posting
  is \<open>scoreJob\<close> of it and the two properties are stated on the postings themselves.
\<close>

theorem reRank_sorted_stable:
  "reRank now jobs prefs = map fst (reRank_scored now jobs prefs) \<and>
   sorted_wrt (\<lambda>a b. snd a \<ge> snd b) (reRank_scored now jobs prefs) \<and>
   (\<forall>s. filter (\<lambda>x. snd x = s) (reRank_scored now jobs prefs) =
        filter (\<lambda>x. snd x = s) (score_all now (map enrich jobs) prefs)) \<and>
   mset (reRank_scored now jobs prefs) = mset (score_all now (map enrich jobs) prefs) \<and>
   sorted_wrt (\<lambda>a b. scoreJob t a prefs \<ge> scoreJob t b prefs) (reRank (\<lambda>i. t) jobs prefs) \<and>
   (\<forall>s. filter (\<lambda>j. scoreJob t j prefs = s) (reRank (\<lambda>i. t) jobs prefs) =
        filter (\<lambda>j. scoreJob t j prefs = s) (map enrich jobs))"
  by (simp add: reRank_def [of now] reRank_scored_def [of now] array_sort_sorted
      array_sort_stable array_sort_mset reRank_const_sorted reRank_const_stable)

theorem reRank_sorted_stable_witness:
  "sorted_wrt (\<lambda>a b. scoreJob 0 a defaultPreferences \<ge> scoreJob 0 b defaultPreferences)
     (reRank (\<lambda>i. 0) [plain_job, sample_job] defaultPreferences) \<and>
   reRank (\<lambda>i. 0) [plain_job, sample_job] defaultPreferences =
     [enrich sample_job, enrich plain_job]"
proof -
  have e: "reRank (\<lambda>i. 0) [plain_job, sample_job] defaultPreferences =
     [enrich sample_job, enrich plain_job]"
    by code_simp
  have "sorted_wrt (\<lambda>a b. scoreJob 0 a defaultPreferences \<ge> scoreJob 0 b defaultPreferences)
          (reRank (\<lambda>i. 0) [plain_job, sample_job] defaultPreferences)"
    using reRank_sorted_stable [of "\<lambda>i. 0" "[plain_job, sample_job]" defaultPreferences 0]
    by (elim conjE)
  then show ?thesis
    using e by (rule conjI)
qed

section \<open>The feedback learner\<close>

subsection \<open>The weights after one call\<close>

lemma weights_learn_tag [simp]: "weights (learn_tag liked t p) = weights p"
  by (simp add: learn_tag_def Let_def)

lemma weights_fold_learn_tag [simp]: "weights (fold (learn_tag liked) ts p) = weights p"
  by (induction ts arbitrary: p) simp_all

lemma weights_set_weight [simp]: "weights (set_weight k v p) = (weights p)(k := v)"
  by (simp add: set_weight_def)

lemma weights_if: "weights (if c then p else q) = (if c then weights p else weights q)"
  by simp

lemma if_apply: "(if c then f else g) x = (if c then f x else g x)"
  by simp

lemma learn_weight_keywordMatch:
  "weights (learnFromFeedback prefs j liked notes sel) ''keywordMatch'' =
     (if liked then clamp (weights prefs ''keywordMatch'' + 0.05) 0.6 2.2
      else weights prefs ''keywordMatch'')"
proof -
  have "weights (learnFromFeedback prefs j liked notes sel) ''keywordMatch'' =
     (if \<not> liked then weights prefs ''keywordMatch''
      else if liked then clamp (weights prefs ''keywordMatch'' + 0.05) 0.6 2.2
      else weights prefs ''keywordMatch'')"
    by (simp add: learnFromFeedback_def Let_def weights_if if_apply
        split del: if_split cong: if_cong)
  then show ?thesis by simp
qed

lemma learn_weight_negativeKeyword:
  "weights (learnFromFeedback prefs j liked notes sel) ''negativeKeyword'' =
     (if \<not> liked then clamp (weights prefs ''negativeKeyword'' - 0.05) (- 3) (- 0.6)
      else weights prefs ''negativeKeyword'')"
  by (simp add: learnFromFeedback_def Let_def weights_if if_apply
      split del: if_split cong: if_cong)

lemma learn_weight_salary:
  "weights (learnFromFeedback prefs j liked notes sel) ''salary'' =
     (if str_includes (toLowerCase notes) ''salary'' \<or> str_includes (toLowerCase notes) ''pay''
      then clamp (weights prefs ''salary'' + (if liked then 0.15 else - 0.12)) 0.2 2.4
      else weights prefs ''salary'')"
  by (simp add: learnFromFeedback_def Let_def weights_if if_apply
      split del: if_split cong: if_cong)

lemma learn_weight_remote:
  "weights (learnFromFeedback prefs j liked notes sel) ''remote'' =
     (if str_includes (toLowerCase notes) ''remote'' \<or> str_includes (toLowerCase notes) ''hybrid''
      then clamp (weights prefs ''remote'' + (if liked then 0.15 else - 0.12)) 0 1.4
      else weights prefs ''remote'')"
  by (simp add: learnFromFeedback_def Let_def weights_if if_apply
      split del: if_split cong: if_cong)

lemma learn_weight_seniority:
  "weights (learnFromFeedback prefs j liked notes sel) ''seniority'' =
     (if str_includes (toLowerCase notes) ''leadership'' \<or>
         str_includes (toLowerCase notes) ''manager'' \<or>
         str_includes (toLowerCase notes) ''director''
      then clamp (weights prefs ''seniority'' + (if liked then 0.15 else - 0.12)) 0.2 2
      else weights prefs ''seniority'')"
  by (simp add: learnFromFeedback_def Let_def weights_if if_apply
      split del: if_split cong: if_cong)

lemma learn_weight_other:
  "k \<notin> {''keywordMatch'', ''negativeKeyword'', ''salary'', ''remote'', ''seniority''} \<Longrightarrow>
   weights (learnFromFeedback prefs j liked notes sel) k = weights prefs k"
  by (simp add: learnFromFeedback_def Let_def weights_if if_apply
      split del: if_split cong: if_cong)

text \<open>\<open>clamp\<close> spelled out: the bound that the value lies beyond, or the value itself.\<close>

lemma clamp_cases:
  "mn \<le> mx \<Longrightarrow> clamp n mn mx = (if n < mn then mn else if mx < n then mx else n)"
  by (simp add: clamp_def)

text \<open>
  Claim C5. Exactly one of the two keyword-weight adjustments fires on a call. A like sets
  \<open>keywordMatch\<close> to its old value plus 0.05, or to the bound 0.6 or 2.2 that this sum lies
  beyond, and leaves \<open>negativeKeyword\<close> as it is; a dislike sets \<open>negativeKeyword\<close> to its old
  value minus 0.05, or to the bound -3.0 or -0.6 that this difference lies beyond, and
  leaves \<open>keywordMatch\<close> as it is.
\<close>

theorem learn_keyword_weights:
  "weights (learnFromFeedback prefs j liked notes sel) ''keywordMatch'' =
     (if liked then max 0.6 (min 2.2 (weights prefs ''keywordMatch'' + 0.05))
      else weights prefs ''keywordMatch'') \<and>
   weights (learnFromFeedback prefs j liked notes sel) ''negativeKeyword'' =
     (if liked then weights prefs ''negativeKeyword''
      else max (- 3.0) (min (- 0.6) (weights prefs ''negativeKeyword'' - 0.05)))"
  by (simp add: learn_weight_keywordMatch learn_weight_negativeKeyword clamp_def)

theorem learn_keyword_weights_witness:
  "weights (learnFromFeedback defaultPreferences sample_job True ''pay'' []) ''keywordMatch'' = 1.45 \<and>
   weights (learnFromFeedback defaultPreferences sample_job True ''pay'' []) ''negativeKeyword'' = - 2.2 \<and>
   weights (learnFromFeedback defaultPreferences sample_job False ''pay'' []) ''keywordMatch'' = 1.4 \<and>
   weights (learnFromFeedback defaultPreferences sample_job False ''pay'' []) ''negativeKeyword'' = - 2.25 \<and>
   weights (learnFromFeedback (with_weight ''keywordMatch'' 2.2) sample_job True [] []) ''keywordMatch'' = 2.2 \<and>
   weights (learnFromFeedback (with_weight ''keywordMatch'' 0.1) sample_job True [] []) ''keywordMatch'' = 0.6 \<and>
   weights (learnFromFeedback (with_weight ''negativeKeyword'' (- 3)) sample_job False [] []) ''negativeKeyword'' = - 3 \<and>
   weights (learnFromFeedback (with_weight ''negativeKeyword'' 0) sample_job False [] []) ''negativeKeyword'' = - 0.6"
  using learn_keyword_weights [of defaultPreferences sample_job True "''pay''" "[]"]
    learn_keyword_weights [of defaultPreferences sample_job False "''pay''" "[]"]
    learn_keyword_weights [of "with_weight ''keywordMatch'' 2.2" sample_job True "[]" "[]"]
    learn_keyword_weights [of "with_weight ''keywordMatch'' 0.1" sample_job True "[]" "[]"]
    learn_keyword_weights [of "with_weight ''negativeKeyword'' (- 3)" sample_job False "[]" "[]"]
    learn_keyword_weights [of "with_weight ''negativeKeyword'' 0" sample_job False "[]" "[]"]
  by (simp add: defaultPreferences_def with_weight_def)

subsection \<open>The clamp ranges\<close>

lemma in_range_clamp: "lo \<le> hi \<Longrightarrow> in_range lo hi (clamp n lo hi)"
  by (simp add: in_range_def clamp_def)

lemma in_range_if_clamp:
  "lo \<le> hi \<Longrightarrow> in_range lo hi x \<Longrightarrow> in_range lo hi (if c then clamp n lo hi else x)"
  by (simp add: in_range_clamp)

lemma clamp_bounds_in_range:
  "clamp_bounds p \<longleftrightarrow>
     in_range 0.6 2.2 (weights p ''keywordMatch'') \<and>
     in_range (- 3) (- 0.6) (weights p ''negativeKeyword'') \<and>
     in_range 0.2 2.4 (weights p ''salary'') \<and>
     in_range 0 1.4 (weights p ''remote'') \<and>
     in_range 0.2 2 (weights p ''seniority'')"
  by (simp add: clamp_bounds_def in_range_def)

lemma clamp_bounds_learnFromFeedback:
  assumes "clamp_bounds p"
  shows "clamp_bounds (learnFromFeedback p j liked notes sel)"
proof -
  let ?q = "learnFromFeedback p j liked notes sel"
  have "in_range 0.6 2.2 (weights ?q ''keywordMatch'')"
    unfolding learn_weight_keywordMatch using assms
    by (intro in_range_if_clamp) (simp_all add: clamp_bounds_in_range)
  moreover have "in_range (- 3) (- 0.6) (weights ?q ''negativeKeyword'')"
    unfolding learn_weight_negativeKeyword using assms
    by (intro in_range_if_clamp) (simp_all add: clamp_bounds_in_range)
  moreover have "in_range 0.2 2.4 (weights ?q ''salary'')"
    unfolding learn_weight_salary using assms
    by (intro in_range_if_clamp) (simp_all add: clamp_bounds_in_range)
  moreover have "in_range 0 1.4 (weights ?q ''remote'')"
    unfolding learn_weight_remote using assms
    by (intro in_range_if_clamp) (simp_all add: clamp_bounds_in_range)
  moreover have "in_range 0.2 2 (weights ?q ''seniority'')"
    unfolding learn_weight_seniority using assms
    by (intro in_range_if_clamp) (simp_all add: clamp_bounds_in_range)
  ultimately show ?thesis
    unfolding clamp_bounds_in_range by blast
qed

text \<open>
  A weight that a call adjusts lands in its range, whatever its value before the call.
\<close>

lemma learn_adjusted_in_range:
  "(liked \<longrightarrow> in_range 0.6 2.2 (weights (learnFromFeedback p j liked notes sel) ''keywordMatch'')) \<and>
   (\<not> liked \<longrightarrow>
      in_range (- 3) (- 0.6) (weights (learnFromFeedback p j liked notes sel) ''negativeKeyword'')) \<and>
   (str_includes (toLowerCase notes) ''salary'' \<or> str_includes (toLowerCase notes) ''pay'' \<longrightarrow>
      in_range 0.2 2.4 (weights (learnFromFeedback p j liked notes sel) ''salary'')) \<and>
   (str_includes (toLowerCase notes) ''remote'' \<or> str_includes (toLowerCase notes) ''hybrid'' \<longrightarrow>
      in_range 0 1.4 (weights (learnFromFeedback p j liked notes sel) ''remote'')) \<and>
   (str_includes (toLowerCase notes) ''leadership'' \<or> str_includes (toLowerCase notes) ''manager'' \<or>
    str_includes (toLowerCase notes) ''director'' \<longrightarrow>
      in_range 0.2 2 (weights (learnFromFeedback p j liked notes sel) ''seniority''))"
  unfolding learn_weight_keywordMatch learn_weight_negativeKeyword learn_weight_salary
    learn_weight_remote learn_weight_seniority
  by (intro conjI impI) (simp_all add: in_range_clamp)

text \<open>
  Claim C3, as stated: after any sequence of calls, from any profile, the five weights
  lie in their ranges. A call clamps only the weights it adjusts: a salary weight of 2.5,
  which the weight slider of the page can set, is still 2.5 after a dislike without notes.
\<close>

theorem clamp_bounds_not_established:
  "\<not> clamp_bounds
       (learn_all (defaultPreferences\<lparr>weights := (weights defaultPreferences)(''salary'' := 2.5)\<rparr>)
          [disliked_event])"
  by (simp add: clamp_bounds_def learn_all_def learn_event_def disliked_event_def
      learn_weight_salary toLowerCase_def)

text \<open>
  Claim C3, amended: the five ranges are an invariant of the learner. From a profile whose
  five weights lie in their ranges, as those of the default profile do, the weights lie in
  their ranges after any finite sequence of calls.
\<close>

theorem clamp_bounds_invariant:
  "clamp_bounds p \<Longrightarrow> clamp_bounds (learn_all p es)"
  unfolding learn_all_def
  by (induction es arbitrary: p) (simp_all add: learn_event_def clamp_bounds_learnFromFeedback)

theorem clamp_bounds_invariant_witness:
  "clamp_bounds defaultPreferences \<and>
   clamp_bounds (learn_all defaultPreferences [liked_event, disliked_event, liked_event])"
proof -
  have h: "clamp_bounds defaultPreferences"
    by (simp add: clamp_bounds_def defaultPreferences_def)
  show ?thesis
    using h clamp_bounds_invariant [OF h] by (rule conjI)
qed

subsection \<open>The keyword lists after one call\<close>

lemma set_first_occurrences [simp]: "set (first_occurrences xs) = set xs"
  by (induction xs) auto

lemma distinct_first_occurrences [simp]: "distinct (first_occurrences xs)"
  by (induction xs) auto

lemma first_occurrences_filter:
  "first_occurrences (filter P xs) = filter P (first_occurrences xs)"
proof (induction xs)
  case Nil
  show ?case by simp
next
  case (Cons x xs)
  show ?case
  proof (cases "P x")
    case True
    then show ?thesis
      by (simp add: Cons.IH conj_commute)
  next
    case False
    then have "filter (\<lambda>y. y \<noteq> x \<and> P y) (first_occurrences xs) = filter P (first_occurrences xs)"
      by (intro filter_cong) auto
    with False show ?thesis
      by (simp add: Cons.IH)
  qed
qed

lemma first_occurrences_distinct: "distinct xs \<Longrightarrow> first_occurrences xs = xs"
  by (induction xs) (auto intro: filter_True)

lemma blocked_learn_tag_liked [simp]: "blockedKeywords (learn_tag True t p) = blockedKeywords p"
  by (simp add: learn_tag_def Let_def)

lemma keywords_learn_tag_disliked [simp]: "keywords (learn_tag False t p) = keywords p"
  by (simp add: learn_tag_def Let_def)

lemma blocked_fold_learn_tag_liked [simp]:
  "blockedKeywords (fold (learn_tag True) ts p) = blockedKeywords p"
  by (induction ts arbitrary: p) simp_all

lemma keywords_fold_learn_tag_disliked [simp]:
  "keywords (fold (learn_tag False) ts p) = keywords p"
  by (induction ts arbitrary: p) simp_all

lemma keywords_fold_learn_tag_liked:
  "keywords (fold (learn_tag True) ts p) =
     keywords p @ first_occurrences (filter (\<lambda>t. t \<notin> set (keywords p)) (map toLowerCase ts))"
proof (induction ts arbitrary: p)
  case Nil
  show ?case by simp
next
  case (Cons t ts)
  show ?case
  proof (cases "toLowerCase t \<in> set (keywords p)")
    case True
    then have "learn_tag True t p = p"
      by (simp add: learn_tag_def)
    with True show ?thesis
      by (simp add: Cons.IH)
  next
    case False
    then have step: "learn_tag True t p = p\<lparr>keywords := keywords p @ [toLowerCase t]\<rparr>"
      by (simp add: learn_tag_def)
    have "filter (\<lambda>x. x \<noteq> toLowerCase t \<and> x \<notin> set (keywords p)) (map toLowerCase ts) =
          filter (\<lambda>y. y \<noteq> toLowerCase t)
            (filter (\<lambda>t. t \<notin> set (keywords p)) (map toLowerCase ts))"
      by (simp add: conj_commute)
    with False show ?thesis
      by (simp add: Cons.IH step first_occurrences_filter del: filter_filter)
  qed
qed

lemma blocked_fold_learn_tag_disliked:
  "blockedKeywords (fold (learn_tag False) ts p) =
     blockedKeywords p @
     first_occurrences (filter (\<lambda>t. t \<notin> set (blockedKeywords p)) (map toLowerCase ts))"
proof (induction ts arbitrary: p)
  case Nil
  show ?case by simp
next
  case (Cons t ts)
  show ?case
  proof (cases "toLowerCase t \<in> set (blockedKeywords p)")
    case True
    then have "learn_tag False t p = p"
      by (simp add: learn_tag_def)
    with True show ?thesis
      by (simp add: Cons.IH)
  next
    case False
    then have step:
      "learn_tag False t p = p\<lparr>blockedKeywords := blockedKeywords p @ [toLowerCase t]\<rparr>"
      by (simp add: learn_tag_def)
    have "filter (\<lambda>x. x \<noteq> toLowerCase t \<and> x \<notin> set (blockedKeywords p)) (map toLowerCase ts) =
          filter (\<lambda>y. y \<noteq> toLowerCase t)
            (filter (\<lambda>t. t \<notin> set (blockedKeywords p)) (map toLowerCase ts))"
      by (simp add: conj_commute)
    with False show ?thesis
      by (simp add: Cons.IH step first_occurrences_filter del: filter_filter)
  qed
qed

lemma keywords_set_weight [simp]: "keywords (set_weight k v p) = keywords p"
  by (simp add: set_weight_def)

lemma blocked_set_weight [simp]: "blockedKeywords (set_weight k v p) = blockedKeywords p"
  by (simp add: set_weight_def)

lemma keywords_if: "keywords (if c then p else q) = (if c then keywords p else keywords q)"
  by simp

lemma blocked_if:
  "blockedKeywords (if c then p else q) = (if c then blockedKeywords p else blockedKeywords q)"
  by simp

lemma keywords_learnFromFeedback:
  "keywords (learnFromFeedback prefs j liked notes sel) =
   keywords (fold (learn_tag liked) (tags_to_learn j sel) prefs)"
  by (cases liked)
     (simp_all add: learnFromFeedback_def Let_def keywords_if keywords_fold_learn_tag_liked
        split del: if_split cong: if_cong)

lemma blocked_learnFromFeedback:
  "blockedKeywords (learnFromFeedback prefs j liked notes sel) =
   blockedKeywords (fold (learn_tag liked) (tags_to_learn j sel) prefs)"
  by (cases liked)
     (simp_all add: learnFromFeedback_def Let_def blocked_if blocked_fold_learn_tag_disliked
        split del: if_split cong: if_cong)

text \<open>
  Claim C6. The learner takes the selected tags when there are any, and the tags of the
  posting otherwise. On a like, the allow-list after the call is the allow-list before
  it, followed by the lowercased tags that were not in it, each once and in the order of
  their first occurrence, and the block-list is as before; on a dislike the same holds
  with the two lists exchanged. Nothing is removed from either list.
\<close>

theorem learn_tags:
  "(let ts = (if sel \<noteq> [] then sel else (case tags j of None \<Rightarrow> [] | Some ts \<Rightarrow> ts));
        out = learnFromFeedback prefs j liked notes sel
    in (liked \<longrightarrow>
          keywords out = keywords prefs @
            first_occurrences (filter (\<lambda>t. t \<notin> set (keywords prefs)) (map toLowerCase ts)) \<and>
          blockedKeywords out = blockedKeywords prefs) \<and>
       (\<not> liked \<longrightarrow>
          blockedKeywords out = blockedKeywords prefs @
            first_occurrences
              (filter (\<lambda>t. t \<notin> set (blockedKeywords prefs)) (map toLowerCase ts)) \<and>
          keywords out = keywords prefs))"
  by (cases liked)
     (simp_all add: Let_def keywords_learnFromFeedback blocked_learnFromFeedback
        keywords_fold_learn_tag_liked blocked_fold_learn_tag_disliked tags_to_learn_def)

theorem learn_tags_witness:
  "keywords (learnFromFeedback defaultPreferences sample_job True [] [''Culture'', ''Risk'', ''RISK'']) =
     keywords defaultPreferences @ [''risk''] \<and>
   blockedKeywords (learnFromFeedback defaultPreferences sample_job True [] [''Culture'', ''Risk'', ''RISK'']) =
     blockedKeywords defaultPreferences \<and>
   blockedKeywords (learnFromFeedback defaultPreferences sample_job False [] []) =
     blockedKeywords defaultPreferences @ [''leadership''] \<and>
   keywords (learnFromFeedback defaultPreferences sample_job False [] []) =
     keywords defaultPreferences"
proof -
  have k: "keywords defaultPreferences =
             [''organisational psychology'', ''behavioural science'', ''OD'',
              ''leadership development'', ''culture'', ''statistics'',
              ''program evaluation'', ''research methods'', ''data analysis'']"
    and b: "blockedKeywords defaultPreferences = [''corruption prevention'']"
    by (simp_all add: defaultPreferences_def)
  have t: "tags sample_job = Some [''Leadership'']"
    by (simp add: sample_job_def)
  show ?thesis
    using learn_tags [of "[''Culture'', ''Risk'', ''RISK'']" sample_job defaultPreferences True "[]"]
      learn_tags [of "[]" sample_job defaultPreferences False "[]"]
    by (simp add: Let_def k b t toLowerCase_def lower_char_def)
qed

subsection \<open>A call without notes and without tags\<close>

text \<open>
  Claim C10. With empty notes, no selected tags and a posting without tags, the output
  profile is the input profile with one weight replaced: \<open>keywordMatch\<close> on a like,
  \<open>negativeKeyword\<close> on a dislike. Every other weight, every list and every flag is as
  in the input.
\<close>

theorem learn_only_keyword_weight:
  assumes "notes = []" and "sel = []" and "tags j = None \<or> tags j = Some []"
  shows "learnFromFeedback prefs j liked notes sel =
           (if liked
            then prefs\<lparr>weights := (weights prefs)
                   (''keywordMatch'' := clamp (weights prefs ''keywordMatch'' + 0.05) 0.6 2.2)\<rparr>
            else prefs\<lparr>weights := (weights prefs)
                   (''negativeKeyword'' :=
                      clamp (weights prefs ''negativeKeyword'' - 0.05) (- 3.0) (- 0.6))\<rparr>)"
proof -
  have ts: "tags_to_learn j sel = []"
    using assms by (auto simp: tags_to_learn_def)
  have n: "toLowerCase notes = []"
    using assms by (simp add: toLowerCase_def)
  show ?thesis
    by (cases liked) (simp_all add: learnFromFeedback_def Let_def ts n set_weight_def)
qed

theorem learn_only_keyword_weight_witness:
  "learnFromFeedback defaultPreferences plain_job True [] [] =
     defaultPreferences\<lparr>weights := (weights defaultPreferences)(''keywordMatch'' := 1.45)\<rparr> \<and>
   learnFromFeedback defaultPreferences plain_job False [] [] =
     defaultPreferences\<lparr>weights := (weights defaultPreferences)(''negativeKeyword'' := - 2.25)\<rparr>"
proof -
  have t: "tags plain_job = None \<or> tags plain_job = Some []"
    by (simp add: plain_job_def)
  have w: "weights defaultPreferences ''keywordMatch'' = 1.4"
    "weights defaultPreferences ''negativeKeyword'' = - 2.2"
    by (simp_all add: defaultPreferences_def)
  show ?thesis
    using learn_only_keyword_weight [OF refl refl t, of defaultPreferences True]
      learn_only_keyword_weight [OF refl refl t, of defaultPreferences False]
    by (simp add: w clamp_def)
qed

section \<open>Source aggregation\<close>

subsection \<open>The settled batches\<close>

lemma push_batch_within:
  "length (batch_jobs b) \<le> m \<Longrightarrow> push_batch m b acc = Inr (acc @ batch_jobs b)"
  by (cases b) (simp_all add: push_batch_def batch_jobs_def)

lemma push_batch_beyond:
  "m < length (batch_jobs b) \<Longrightarrow> push_batch m b acc = Inl ''RangeError''"
  by (cases b) (simp_all add: push_batch_def batch_jobs_def)

lemma push_all_within:
  "\<forall>b \<in> set bs. length (batch_jobs b) \<le> m \<Longrightarrow>
   push_all m bs acc = Inr (acc @ concat (map batch_jobs bs))"
  by (induction bs arbitrary: acc) (simp_all add: push_batch_within)

lemma push_all_beyond:
  "\<exists>b \<in> set bs. m < length (batch_jobs b) \<Longrightarrow> push_all m bs acc = Inl ''RangeError''"
proof (induction bs arbitrary: acc)
  case Nil
  then show ?case by simp
next
  case (Cons b bs)
  show ?case
  proof (cases "m < length (batch_jobs b)")
    case True
    then show ?thesis
      by (simp add: push_batch_beyond)
  next
    case False
    with Cons.prems have "\<exists>b \<in> set bs. m < length (batch_jobs b)"
      by auto
    from Cons.IH [OF this] False show ?thesis
      by (simp add: push_batch_within)
  qed
qed

lemma first_throw_settled: "\<forall>b \<in> set bs. settles b \<Longrightarrow> first_throw bs = None"
  by (induction bs rule: first_throw.induct) (simp_all add: settles_def)

lemma not_pending_settled: "\<forall>b \<in> set bs. settles b \<Longrightarrow> Pending \<notin> set bs"
  by (auto simp: settles_def)

subsection \<open>The de-duplication\<close>

lemma map_set_fresh: "k \<notin> fst ` set m \<Longrightarrow> map_set m k v = m @ [(k, v)]"
  by (induction m) auto

lemma fold_map_set_distinct:
  "distinct (map f js) \<Longrightarrow> f ` set js \<inter> fst ` set m = {} \<Longrightarrow>
   fold (\<lambda>j m. map_set m (f j) j) js m = m @ map (\<lambda>j. (f j, j)) js"
proof (induction js arbitrary: m)
  case Nil
  show ?case by simp
next
  case (Cons j js)
  have fresh: "f j \<notin> fst ` set m"
    using Cons.prems(2) by auto
  have "f ` set js \<inter> fst ` set (m @ [(f j, j)]) = {}"
    using Cons.prems by auto
  with Cons.prems(1) have
    "fold (\<lambda>j m. map_set m (f j) j) js (m @ [(f j, j)]) = (m @ [(f j, j)]) @ map (\<lambda>j. (f j, j)) js"
    by (intro Cons.IH) simp_all
  then show ?case
    by (simp add: map_set_fresh [OF fresh])
qed

lemma dedup_distinct: "distinct (map dedup_key js) \<Longrightarrow> dedup js = js"
  by (simp add: dedup_def fold_map_set_distinct comp_def)

lemma dedup_key_inj:
  assumes "CHR ''-'' \<notin> set (source a)" and "CHR ''-'' \<notin> set (source b)"
    and "dedup_key a = dedup_key b"
  shows "source a = source b \<and> job_id a = job_id b"
proof -
  have tw: "takeWhile (\<lambda>c. c \<noteq> CHR ''-'') (s @ CHR ''-'' # i) = s" if "CHR ''-'' \<notin> set s" for s i
    using that by (induction s) auto
  have "source a = takeWhile (\<lambda>c. c \<noteq> CHR ''-'') (dedup_key a)"
    by (simp add: dedup_key_def tw [OF assms(1)])
  also have "\<dots> = takeWhile (\<lambda>c. c \<noteq> CHR ''-'') (dedup_key b)"
    by (simp only: assms(3))
  also have "\<dots> = source b"
    by (simp add: dedup_key_def tw [OF assms(2)])
  finally have "source a = source b" .
  with assms(3) show ?thesis
    by (simp add: dedup_key_def)
qed

lemma dedup_key_distinct:
  assumes "\<forall>j \<in> set js. CHR ''-'' \<notin> set (source j)"
    and "distinct (map (\<lambda>j. (source j, job_id j)) js)"
  shows "distinct (map dedup_key js)"
proof -
  have "inj_on dedup_key (set js) \<and> distinct js"
    using assms
  proof (intro conjI inj_onI)
    fix a b assume "a \<in> set js" "b \<in> set js" "dedup_key a = dedup_key b"
    then have "(source a, job_id a) = (source b, job_id b)"
      using assms(1) dedup_key_inj by auto
    with assms(2) \<open>a \<in> set js\<close> \<open>b \<in> set js\<close> show "a = b"
      by (metis (mono_tags, lifting) distinct_map inj_onD)
  next
    show "distinct js" using assms(2) by (simp add: distinct_map)
  qed
  then show ?thesis
    by (simp add: distinct_map)
qed

lemma first_occurrences_repeat:
  "k \<in> set ks \<Longrightarrow> first_occurrences (ks @ k # rest) = first_occurrences (ks @ rest)"
proof (induction ks)
  case Nil
  then show ?case by simp
next
  case (Cons x ks)
  show ?case
  proof (cases "x = k")
    case True
    have "filter (\<lambda>y. y \<noteq> k) (first_occurrences (ks @ k # rest)) =
          filter (\<lambda>y. y \<noteq> k) (first_occurrences (ks @ rest))"
      by (simp add: first_occurrences_filter [symmetric])
    with True show ?thesis by simp
  next
    case False
    with Cons show ?thesis by simp
  qed
qed

lemma keys_map_set:
  "map fst (map_set m k v) = (if k \<in> fst ` set m then map fst m else map fst m @ [k])"
  by (induction m) force+

lemma map_of_map_set: "map_of (map_set m k v) = (map_of m)(k \<mapsto> v)"
  by (induction m) (auto simp: fun_eq_iff)

lemma keys_fold_map_set:
  "map fst (fold (\<lambda>j m. map_set m (f j) j) js m) = first_occurrences (map fst m @ map f js)"
  if "distinct (map fst m)"
  using that
proof (induction js arbitrary: m)
  case Nil
  then show ?case by (simp add: first_occurrences_distinct)
next
  case (Cons j js)
  have d: "distinct (map fst (map_set m (f j) j))"
    using Cons.prems by (auto simp: keys_map_set)
  show ?case
  proof (cases "f j \<in> fst ` set m")
    case True
    then have "f j \<in> set (map fst m)" by simp
    then show ?thesis
      using Cons.IH [OF d] True by (simp add: keys_map_set first_occurrences_repeat)
  next
    case False
    then show ?thesis
      using Cons.IH [OF d] by (simp add: keys_map_set)
  qed
qed

lemma map_of_fold_map_set:
  "map_of (fold (\<lambda>j m. map_set m (f j) j) js m) =
   map_of m ++ map_of (rev (map (\<lambda>j. (f j, j)) js))"
proof (induction js arbitrary: m)
  case Nil
  show ?case by simp
next
  case (Cons j js)
  show ?case
    by (simp add: Cons.IH map_of_map_set fun_eq_iff map_add_def split: option.splits)
qed

lemma map_of_keyed: "map_of (map (\<lambda>j. (f j, j)) xs) k = find (\<lambda>x. f x = k) xs"
  by (induction xs) auto

lemma values_keyed_fold_map_set:
  "(k, v) \<in> set (fold (\<lambda>j m. map_set m (f j) j) js m) \<Longrightarrow> (k, v) \<in> set m \<or> (k = f v \<and> v \<in> set js)"
proof (induction js arbitrary: m)
  case Nil
  then show ?case by simp
next
  case (Cons j js)
  have "(k, v) \<in> set (map_set m (f j) j) \<Longrightarrow> (k, v) \<in> set m \<or> (k, v) = (f j, j)" for m
    by (induction m) (auto split: if_splits)
  with Cons.IH [of "map_set m (f j) j"] Cons.prems show ?case
    by auto
qed

text \<open>What the de-duplication does, in terms of the key it uses.\<close>

lemma dedup_keys: "map dedup_key (dedup js) = first_occurrences (map dedup_key js)"
proof -
  let ?m = "fold (\<lambda>j m. map_set m (dedup_key j) j) js []"
  have "\<forall>(k, v) \<in> set ?m. k = dedup_key v"
    using values_keyed_fold_map_set [of _ _ dedup_key js "[]"] by auto
  then have "map dedup_key (map snd ?m) = map fst ?m"
    by (auto simp: comp_def)
  then show ?thesis
    using keys_fold_map_set [of "[]" dedup_key js] by (simp add: dedup_def)
qed

lemma dedup_last:
  assumes "j \<in> set (dedup js)"
  shows "find (\<lambda>x. dedup_key x = dedup_key j) (rev js) = Some j"
proof -
  let ?m = "fold (\<lambda>j m. map_set m (dedup_key j) j) js []"
  from assms obtain k where kj: "(k, j) \<in> set ?m"
    by (auto simp: dedup_def)
  then have k: "k = dedup_key j"
    using values_keyed_fold_map_set [of k j dedup_key js "[]"] by simp
  have "distinct (map fst ?m)"
    using keys_fold_map_set [of "[]" dedup_key js] by simp
  with kj have "map_of ?m k = Some j"
    by simp
  then have "map_of (map (\<lambda>j. (dedup_key j, j)) (rev js)) k = Some j"
    by (simp add: map_of_fold_map_set rev_map)
  then show ?thesis
    by (simp add: map_of_keyed k)
qed

lemma first_occurrences_map:
  "inj_on f (set xs) \<Longrightarrow> first_occurrences (map f xs) = map f (first_occurrences xs)"
proof (induction xs)
  case Nil
  show ?case by simp
next
  case (Cons x xs)
  then have inj: "inj_on f (set xs)" and nx: "\<And>y. y \<in> set xs \<Longrightarrow> f y = f x \<longleftrightarrow> y = x"
    by (auto simp: inj_on_def)
  have "filter (\<lambda>y. f y \<noteq> f x) (first_occurrences xs) =
        filter (\<lambda>y. y \<noteq> x) (first_occurrences xs)"
    by (rule filter_cong) (simp_all add: nx)
  then have "filter (\<lambda>y. y \<noteq> f x) (map f (first_occurrences xs)) =
        map f (filter (\<lambda>y. y \<noteq> x) (first_occurrences xs))"
    by (simp add: filter_map comp_def)
  with Cons.IH [OF inj] show ?case by simp
qed

lemma set_dedup: "set (dedup js) \<subseteq> set js"
proof
  fix j assume "j \<in> set (dedup js)"
  then obtain k where "(k, j) \<in> set (fold (\<lambda>j m. map_set m (dedup_key j) j) js [])"
    by (auto simp: dedup_def)
  then show "j \<in> set js"
    using values_keyed_fold_map_set [of k j dedup_key js "[]"] by simp
qed

text \<open>
  Where no source contains a hyphen, the key is as good as the pair of source and
  identifier: the output holds one posting for every pair, in the order in which the pairs
  first occur, and that posting is the last one of the input with its pair.
\<close>

lemma dedup_by_pair:
  assumes "\<forall>j \<in> set js. CHR ''-'' \<notin> set (source j)"
  shows "map (\<lambda>j. (source j, job_id j)) (dedup js) =
           first_occurrences (map (\<lambda>j. (source j, job_id j)) js)"
    and "j \<in> set (dedup js) \<Longrightarrow>
           find (\<lambda>x. (source x, job_id x) = (source j, job_id j)) (rev js) = Some j"
proof -
  let ?pair = "\<lambda>j. (source j, job_id j)"
  let ?k = "\<lambda>(s, i). s @ ''-'' @ i"
  have key: "dedup_key x = ?k (?pair x)" for x
    by (simp add: dedup_key_def)
  have eq: "dedup_key x = dedup_key y \<longleftrightarrow> ?pair x = ?pair y"
    if "x \<in> set js" "y \<in> set js" for x y
    using that assms dedup_key_inj [of x y] by (auto simp: dedup_key_def)
  have inj: "inj_on ?k (set (map ?pair js))"
  proof (rule inj_onI)
    fix p q assume "p \<in> set (map ?pair js)" "q \<in> set (map ?pair js)" "?k p = ?k q"
    then obtain x y where "x \<in> set js" "y \<in> set js" "p = ?pair x" "q = ?pair y"
      by auto
    with \<open>?k p = ?k q\<close> eq [of x y] show "p = q"
      by (simp add: dedup_key_def)
  qed
  have m: "map dedup_key xs = map ?k (map ?pair xs)" for xs
    by (simp add: dedup_key_def)
  have "map ?k (map ?pair (dedup js)) = map dedup_key (dedup js)"
    by (simp only: m)
  also have "\<dots> = first_occurrences (map ?k (map ?pair js))"
    by (subst dedup_keys) (simp only: m)
  also have "\<dots> = map ?k (first_occurrences (map ?pair js))"
    using inj by (rule first_occurrences_map)
  finally have "map ?k (map ?pair (dedup js)) = map ?k (first_occurrences (map ?pair js))" .
  moreover have "set (map ?pair (dedup js)) \<union> set (first_occurrences (map ?pair js)) \<subseteq> set (map ?pair js)"
    using set_dedup [of js] by auto
  ultimately show "map ?pair (dedup js) = first_occurrences (map ?pair js)"
    using inj by (meson inj_on_map_eq_map inj_on_subset)
  assume j: "j \<in> set (dedup js)"
  then have "j \<in> set js"
    using set_dedup by auto
  then have "find (\<lambda>x. ?pair x = ?pair j) (rev js) = find (\<lambda>x. dedup_key x = dedup_key j) (rev js)"
    by (intro find_cong) (simp_all add: eq)
  with dedup_last [OF j] show "find (\<lambda>x. ?pair x = ?pair j) (rev js) = Some j"
    by simp
qed

subsection \<open>Partial failure\<close>

text \<open>What \<open>fetchJobs\<close> does when every adapter it calls fulfils or rejects.\<close>

lemma fetchJobs_settled:
  assumes "\<forall>a \<in> set (invoked jobAdapters enabledOnly). settles (fetcher a query loc)"
  shows "fetchJobs m jobAdapters query loc enabledOnly =
           (case push_all m (map (\<lambda>a. fetcher a query loc) (invoked jobAdapters enabledOnly)) [] of
              Inl e \<Rightarrow> Raises e
            | Inr jobs \<Rightarrow> Returns (dedup jobs))"
proof -
  let ?adapters = "filter (\<lambda>a. if enabledOnly then enabled a else True) jobAdapters"
  let ?calls = "map (\<lambda>a. fetcher a query loc) ?adapters"
  have inv: "?adapters = invoked jobAdapters enabledOnly"
    by (simp add: invoked_def)
  have s: "\<forall>b \<in> set ?calls. settles b"
    using assms by (simp add: inv)
  show ?thesis
    using first_throw_settled [OF s] not_pending_settled [OF s]
    by (simp add: fetchJobs_def Let_def inv del: set_map)
qed

text \<open>
  A fulfilled batch with more postings than the engine accepts as arguments: the push
  throws, and \<open>fetchJobs\<close> rejects although every adapter has settled.
\<close>

lemma fetchJobs_large_batch:
  assumes "\<forall>a \<in> set (invoked jobAdapters enabledOnly). settles (fetcher a query loc)"
    and "\<exists>a \<in> set (invoked jobAdapters enabledOnly). m < length (batch_jobs (fetcher a query loc))"
  shows "fetchJobs m jobAdapters query loc enabledOnly = Raises ''RangeError''"
proof -
  have "\<exists>b \<in> set (map (\<lambda>a. fetcher a query loc) (invoked jobAdapters enabledOnly)).
          m < length (batch_jobs b)"
    using assms(2) by simp
  from push_all_beyond [OF this] show ?thesis
    by (simp add: fetchJobs_settled [OF assms(1)])
qed

text \<open>
  Claim C7, as stated: with two adapters of which one rejects and one returns three
  postings, \<open>fetchJobs\<close> returns exactly those three. The three are de-duplicated like any
  other result: when two of them carry the same source and identifier, two postings come
  back.
\<close>

theorem fetchJobs_drops_duplicate:
  "fetchJobs sample_limit
     [failing_adapter, returning ''DEMO'' [sample_job, plain_job, plain_job_updated]]
     ''od'' ''Sydney'' True = Returns [sample_job, plain_job_updated] \<and>
   fetchJobs sample_limit
     [failing_adapter, returning ''DEMO'' [sample_job, plain_job, plain_job_updated]]
     ''od'' ''Sydney'' True \<noteq> Returns [sample_job, plain_job, plain_job_updated]"
  by (simp add: fetchJobs_def sample_limit_def failing_adapter_def returning_def push_batch_def
      dedup_def dedup_key_def sample_job_def plain_job_def plain_job_updated_def)

text \<open>
  Claim C7, amended: when every adapter that is called either fulfils or rejects, and no
  fulfilled list is longer than the engine accepts as the arguments of one call,
  \<open>fetchJobs\<close> returns, and raises nothing, and every posting it returns is a posting of an
  adapter that fulfilled, so that an adapter that rejected contributes nothing. When the
  sources of the fulfilled postings contain no hyphen, the result holds one posting for
  every pair of source and identifier among them, in the order in which the pairs first
  occur in the lists concatenated in the order of the adapters, and that posting is the
  last one with its pair; when the pairs are pairwise distinct, the result is all the
  fulfilled postings, in order. One adapter rejecting and one returning three such
  postings with distinct pairs yields exactly the three.
\<close>

theorem fetchJobs_partial_failure:
  assumes "\<forall>a \<in> set (invoked jobAdapters enabledOnly). settles (fetcher a query loc)"
    and "\<forall>a \<in> set (invoked jobAdapters enabledOnly).
           length (batch_jobs (fetcher a query loc)) \<le> maxArguments"
  shows "(let succ = concat (map (\<lambda>a. batch_jobs (fetcher a query loc))
                        (invoked jobAdapters enabledOnly))
          in \<exists>out. fetchJobs maxArguments jobAdapters query loc enabledOnly = Returns out \<and>
               set out \<subseteq> set succ \<and>
               ((\<forall>j \<in> set succ. CHR ''-'' \<notin> set (source j)) \<longrightarrow>
                  map (\<lambda>j. (source j, job_id j)) out =
                    first_occurrences (map (\<lambda>j. (source j, job_id j)) succ) \<and>
                  (\<forall>j \<in> set out.
                     find (\<lambda>x. (source x, job_id x) = (source j, job_id j)) (rev succ) = Some j) \<and>
                  (distinct (map (\<lambda>j. (source j, job_id j)) succ) \<longrightarrow> out = succ)))"
proof -
  let ?calls = "map (\<lambda>a. fetcher a query loc) (invoked jobAdapters enabledOnly)"
  let ?succ = "concat (map (\<lambda>a. batch_jobs (fetcher a query loc)) (invoked jobAdapters enabledOnly))"
  have "\<forall>b \<in> set ?calls. length (batch_jobs b) \<le> maxArguments"
    using assms(2) by simp
  from push_all_within [OF this, of "[]"]
  have "push_all maxArguments ?calls [] = Inr ?succ"
    by (simp add: comp_def)
  then have r: "fetchJobs maxArguments jobAdapters query loc enabledOnly = Returns (dedup ?succ)"
    by (simp add: fetchJobs_settled [OF assms(1)])
  have sub: "set (dedup ?succ) \<subseteq> set ?succ"
    by (rule set_dedup)
  have pairs: "map (\<lambda>j. (source j, job_id j)) (dedup ?succ) =
                 first_occurrences (map (\<lambda>j. (source j, job_id j)) ?succ) \<and>
               (\<forall>j \<in> set (dedup ?succ).
                  find (\<lambda>x. (source x, job_id x) = (source j, job_id j)) (rev ?succ) = Some j) \<and>
               (distinct (map (\<lambda>j. (source j, job_id j)) ?succ) \<longrightarrow> dedup ?succ = ?succ)"
    if h: "\<forall>j \<in> set ?succ. CHR ''-'' \<notin> set (source j)"
    using dedup_by_pair [OF h] dedup_distinct [OF dedup_key_distinct [OF h]] by blast
  show ?thesis
    unfolding Let_def using r sub pairs by blast
qed

theorem fetchJobs_partial_failure_witness:
  "fetchJobs sample_limit [failing_adapter, returning ''DEMO'' [sample_job, plain_job, third_job]]
     ''od'' ''Sydney'' True = Returns [sample_job, plain_job, third_job]"
proof -
  let ?as = "[failing_adapter, returning ''DEMO'' [sample_job, plain_job, third_job]]"
  have i: "invoked ?as True = ?as"
    by (simp add: invoked_def failing_adapter_def returning_def)
  have s: "\<forall>a \<in> set (invoked ?as True). settles (fetcher a ''od'' ''Sydney'')"
    by (simp add: i) (simp add: settles_def failing_adapter_def returning_def)
  have b: "concat (map (\<lambda>a. batch_jobs (fetcher a ''od'' ''Sydney'')) (invoked ?as True)) =
             [sample_job, plain_job, third_job]"
    by (simp add: i) (simp add: batch_jobs_def failing_adapter_def returning_def)
  have w: "\<forall>a \<in> set (invoked ?as True).
             length (batch_jobs (fetcher a ''od'' ''Sydney'')) \<le> sample_limit"
    by (simp add: i) (simp add: batch_jobs_def failing_adapter_def returning_def sample_limit_def)
  have d: "(\<forall>j \<in> set [sample_job, plain_job, third_job]. CHR ''-'' \<notin> set (source j)) \<and>
           distinct (map (\<lambda>j. (source j, job_id j)) [sample_job, plain_job, third_job])"
    by (simp add: sample_job_def plain_job_def third_job_def)
  show ?thesis
    using fetchJobs_partial_failure [OF s w] d unfolding Let_def b by blast
qed

subsection \<open>The key of the de-duplication\<close>

text \<open>
  Claim C8. Of two postings with the same source and identifier the output holds exactly
  one, the later one. The key that \<open>fetchJobs\<close> uses is the string \<open>source-id\<close>, which two
  different pairs can share: the source \<open>SEEK\<close> with the identifier \<open>AU-17\<close>, and the
  source \<open>SEEK-AU\<close> with the identifier \<open>17\<close>. Evaluated on an adapter that returns a
  posting of the first pair twice and an adapter that returns a posting of the second
  pair, \<open>fetchJobs\<close> returns the posting of the second pair alone: no posting of the
  duplicated pair is left.
\<close>

theorem dedup_key_collision:
  "fetchJobs sample_limit
     [returning ''SEEK'' [seek_job, seek_job_updated], returning ''SEEK-AU'' [seek_au_job]]
     ''analyst'' ''Sydney'' True = Returns [seek_au_job] \<and>
   (source seek_job, job_id seek_job) = (source seek_job_updated, job_id seek_job_updated) \<and>
   (source seek_au_job, job_id seek_au_job) \<noteq> (source seek_job_updated, job_id seek_job_updated)"
  by (simp add: fetchJobs_def sample_limit_def returning_def push_batch_def dedup_def
      dedup_key_def seek_job_def seek_job_updated_def seek_au_job_def plain_job_def)

section \<open>The feedback learner on the heap\<close>

lemma read_prefs_iff:
  "read_prefs h a = Some Q \<longleftrightarrow> (\<exists>po. get_prefs h a = Some po \<and> represents h po Q)"
proof
  assume "read_prefs h a = Some Q"
  then show "\<exists>po. get_prefs h a = Some po \<and> represents h po Q"
    by (auto simp: read_prefs_def represents_def bind_eq_Some_conv)
next
  assume "\<exists>po. get_prefs h a = Some po \<and> represents h po Q"
  then show "read_prefs h a = Some Q"
    by (auto simp: read_prefs_def represents_def)
qed

subsection \<open>Reading the heap after an allocation or a write\<close>

lemma get_arr_append: "get_arr h a = Some x \<Longrightarrow> get_arr (h @ xs) a = Some x"
  by (auto simp: get_arr_def nth_append split: if_splits)

lemma get_rec_append: "get_rec h a = Some x \<Longrightarrow> get_rec (h @ xs) a = Some x"
  by (auto simp: get_rec_def nth_append split: if_splits)

lemma get_prefs_append: "get_prefs h a = Some x \<Longrightarrow> get_prefs (h @ xs) a = Some x"
  by (auto simp: get_prefs_def nth_append split: if_splits)

lemma get_arr_new: "get_arr (h @ [Arr xs]) (length h) = Some xs"
  by (simp add: get_arr_def)

lemma get_rec_new: "get_rec (h @ [Rec w]) (length h) = Some w"
  by (simp add: get_rec_def)

lemma get_prefs_new: "get_prefs (h @ [Prefs po]) (length h) = Some po"
  by (simp add: get_prefs_def)

lemma get_arr_upd_rec: "get_rec h b = Some w \<Longrightarrow> get_arr (h[b := Rec w']) a = get_arr h a"
  by (auto simp: get_arr_def get_rec_def nth_list_update split: if_splits obj.splits)

lemma get_prefs_upd_rec: "get_rec h b = Some w \<Longrightarrow> get_prefs (h[b := Rec w']) a = get_prefs h a"
  by (auto simp: get_prefs_def get_rec_def nth_list_update split: if_splits obj.splits)

lemma get_rec_upd_rec: "get_rec h b = Some w \<Longrightarrow> get_rec (h[b := Rec w']) b = Some w'"
  by (auto simp: get_rec_def split: if_splits)

lemma get_arr_upd_prefs:
  "get_prefs h b = Some po \<Longrightarrow> get_arr (h[b := Prefs po']) a = get_arr h a"
  by (auto simp: get_arr_def get_prefs_def nth_list_update split: if_splits obj.splits)

lemma get_rec_upd_prefs:
  "get_prefs h b = Some po \<Longrightarrow> get_rec (h[b := Prefs po']) a = get_rec h a"
  by (auto simp: get_rec_def get_prefs_def nth_list_update split: if_splits obj.splits)

lemma get_prefs_upd_prefs:
  "get_prefs h b = Some po \<Longrightarrow> get_prefs (h[b := Prefs po']) b = Some po'"
  by (auto simp: get_prefs_def split: if_splits)

lemma get_prefs_bound: "get_prefs h a = Some po \<Longrightarrow> a < length h"
  by (simp add: get_prefs_def split: if_splits)

lemma represents_append: "represents h po Q \<Longrightarrow> represents (h @ xs) po Q"
  by (simp add: represents_def get_arr_append get_rec_append)

lemma represents_upd_prefs:
  "get_prefs h b = Some po' \<Longrightarrow> represents h po Q \<Longrightarrow> represents (h[b := Prefs po'']) po Q"
  by (simp add: represents_def get_arr_upd_prefs get_rec_upd_prefs)

text \<open>A heap that extends another denotes the same profiles at the old addresses.\<close>

lemma get_arr_take:
  "take n h = h0 \<Longrightarrow> get_arr h0 a = Some x \<Longrightarrow> get_arr h a = Some x"
  by (auto simp: get_arr_def split: if_splits)

lemma get_rec_take:
  "take n h = h0 \<Longrightarrow> get_rec h0 a = Some x \<Longrightarrow> get_rec h a = Some x"
  by (auto simp: get_rec_def split: if_splits)

lemma get_prefs_take:
  "take n h = h0 \<Longrightarrow> get_prefs h0 a = Some x \<Longrightarrow> get_prefs h a = Some x"
  by (auto simp: get_prefs_def split: if_splits)

lemma read_prefs_take:
  assumes "take n h = h0" and "read_prefs h0 a = Some Q"
  shows "read_prefs h a = Some Q"
proof -
  from assms(2) obtain po where po: "get_prefs h0 a = Some po" and r: "represents h0 po Q"
    by (auto simp: read_prefs_iff)
  have "represents h po Q"
    using r by (simp add: represents_def get_arr_take [OF assms(1)] get_rec_take [OF assms(1)])
  with get_prefs_take [OF assms(1) po] show ?thesis
    by (auto simp: read_prefs_iff)
qed

subsection \<open>The statements of the learner, one by one\<close>

lemma set_weight_heap_step:
  assumes "learner_inv h0 np h Q"
  shows "\<exists>h'. set_weight_heap np k f h = Some h' \<and>
              learner_inv h0 np h' (set_weight k (f (weights Q k)) Q)"
proof -
  from assms obtain po where t: "take (length h0) h = h0" and n: "length h0 \<le> np"
    and po: "get_prefs h np = Some po" and w: "length h0 \<le> weights_ref po"
    and r: "represents h po Q"
    by (auto simp: learner_inv_def)
  from r have gw: "get_rec h (weights_ref po) = Some (weights Q)"
    by (simp add: represents_def)
  let ?w' = "(weights Q)(k := f (weights Q k))"
  let ?h' = "h[weights_ref po := Rec ?w']"
  have s: "set_weight_heap np k f h = Some ?h'"
    by (simp add: set_weight_heap_def po gw)
  have "represents ?h' po (set_weight k (f (weights Q k)) Q)"
    using r gw
    by (simp add: represents_def set_weight_def get_arr_upd_rec [OF gw] get_rec_upd_rec [OF gw])
  moreover have "get_prefs ?h' np = Some po"
    by (simp add: get_prefs_upd_rec [OF gw] po)
  moreover have "take (length h0) ?h' = h0"
    using t w by (simp add: take_update_cancel)
  ultimately show ?thesis
    using s n w by (auto simp: learner_inv_def)
qed

lemma set_field_heap_step:
  assumes "learner_inv h0 np h Q"
    and "\<And>po. weights_ref (g po) = weights_ref po"
    and "\<And>po h'. represents h' po Q \<Longrightarrow> (\<And>a. get_arr h' a = get_arr h a) \<Longrightarrow>
           represents h' (g po) Q'"
  shows "\<exists>h'. set_field_heap np g h = Some h' \<and> learner_inv h0 np h' Q'"
proof -
  from assms(1) obtain po where t: "take (length h0) h = h0" and n: "length h0 \<le> np"
    and po: "get_prefs h np = Some po" and w: "length h0 \<le> weights_ref po"
    and r: "represents h po Q"
    by (auto simp: learner_inv_def)
  let ?h' = "h[np := Prefs (g po)]"
  have s: "set_field_heap np g h = Some ?h'"
    by (simp add: set_field_heap_def po)
  have "represents ?h' po Q"
    using po r by (rule represents_upd_prefs)
  then have "represents ?h' (g po) Q'"
    by (rule assms(3)) (rule get_arr_upd_prefs [OF po])
  moreover have "get_prefs ?h' np = Some (g po)"
    using po by (rule get_prefs_upd_prefs)
  moreover have "take (length h0) ?h' = h0"
    using t n by (simp add: take_update_cancel)
  ultimately show ?thesis
    using s n w by (auto simp: learner_inv_def assms(2))
qed

lemma learner_inv_append:
  assumes "learner_inv h0 np h Q"
  shows "learner_inv h0 np (h @ xs) Q"
proof -
  from assms obtain po where t: "take (length h0) h = h0" and n: "length h0 \<le> np"
    and po: "get_prefs h np = Some po" and w: "length h0 \<le> weights_ref po"
    and r: "represents h po Q"
    by (auto simp: learner_inv_def)
  have "length (take (length h0) h) = length h0"
    using t by simp
  then have "length h0 \<le> length h"
    by simp
  then have "take (length h0) (h @ xs) = h0"
    using t by simp
  with n w get_prefs_append [OF po] represents_append [OF r] show ?thesis
    by (auto simp: learner_inv_def)
qed

lemma learn_tag_heap_step:
  assumes "learner_inv h0 np h Q"
  shows "\<exists>h'. learn_tag_heap liked np t h = Some h' \<and> learner_inv h0 np h' (learn_tag liked t Q)"
proof -
  from assms obtain po where po: "get_prefs h np = Some po" and r: "represents h po Q"
    by (auto simp: learner_inv_def)
  from r have ks: "get_arr h (keywords_ref po) = Some (keywords Q)"
    and bs: "get_arr h (blockedKeywords_ref po) = Some (blockedKeywords Q)"
    by (simp_all add: represents_def)
  let ?t = "toLowerCase t"
  show ?thesis
  proof (cases liked)
    case True
    show ?thesis
    proof (cases "?t \<in> set (keywords Q)")
      case present: True
      with True assms show ?thesis
        by (simp add: learn_tag_heap_def learn_tag_def po ks)
    next
      case False
      let ?h1 = "h @ [Arr (keywords Q @ [?t])]"
      have new: "get_arr ?h1 (length h) = Some (keywords Q @ [?t])"
        by (rule get_arr_new)
      have "\<exists>h'. set_field_heap np (\<lambda>po. po\<lparr>keywords_ref := length h\<rparr>) ?h1 = Some h' \<and>
                 learner_inv h0 np h' (Q\<lparr>keywords := keywords Q @ [?t]\<rparr>)"
        using learner_inv_append [OF assms]
      proof (rule set_field_heap_step)
        fix po' h'
        assume "represents h' po' Q" and "\<And>a. get_arr h' a = get_arr ?h1 a"
        then show "represents h' (po'\<lparr>keywords_ref := length h\<rparr>) (Q\<lparr>keywords := keywords Q @ [?t]\<rparr>)"
          using new by (simp add: represents_def)
      qed simp
      with True False show ?thesis
        by (simp add: learn_tag_heap_def learn_tag_def po ks alloc_def)
    qed
  next
    case disliked: False
    show ?thesis
    proof (cases "?t \<in> set (blockedKeywords Q)")
      case True
      with disliked assms show ?thesis
        by (simp add: learn_tag_heap_def learn_tag_def po bs)
    next
      case False
      let ?h1 = "h @ [Arr (blockedKeywords Q @ [?t])]"
      have new: "get_arr ?h1 (length h) = Some (blockedKeywords Q @ [?t])"
        by (rule get_arr_new)
      have "\<exists>h'. set_field_heap np (\<lambda>po. po\<lparr>blockedKeywords_ref := length h\<rparr>) ?h1 = Some h' \<and>
                 learner_inv h0 np h' (Q\<lparr>blockedKeywords := blockedKeywords Q @ [?t]\<rparr>)"
        using learner_inv_append [OF assms]
      proof (rule set_field_heap_step)
        fix po' h'
        assume "represents h' po' Q" and "\<And>a. get_arr h' a = get_arr ?h1 a"
        then show "represents h' (po'\<lparr>blockedKeywords_ref := length h\<rparr>)
                     (Q\<lparr>blockedKeywords := blockedKeywords Q @ [?t]\<rparr>)"
          using new by (simp add: represents_def)
      qed simp
      with disliked False show ?thesis
        by (simp add: learn_tag_heap_def learn_tag_def po bs alloc_def)
    qed
  qed
qed

lemma forEach_step:
  assumes "\<And>x h Q. learner_inv h0 np h Q \<Longrightarrow> \<exists>h'. f x h = Some h' \<and> learner_inv h0 np h' (g x Q)"
    and "learner_inv h0 np h Q"
  shows "\<exists>h'. forEach f xs h = Some h' \<and> learner_inv h0 np h' (fold g xs Q)"
  using assms(2)
proof (induction xs arbitrary: h Q)
  case Nil
  then show ?case by simp
next
  case (Cons x xs)
  from assms(1) [OF Cons.prems] obtain h1
    where "f x h = Some h1" and "learner_inv h0 np h1 (g x Q)"
    by blast
  with Cons.IH [of h1 "g x Q"] show ?case
    by simp
qed

lemma when_heap_step:
  assumes "learner_inv h0 np h Q"
    and "\<exists>h'. s h = Some h' \<and> learner_inv h0 np h' Q'"
  shows "\<exists>h'. when_heap c s h = Some h' \<and> learner_inv h0 np h' (if c then Q' else Q)"
  using assms by (simp add: when_heap_def)

lemma learner_inv_start:
  assumes po: "get_prefs h prefs = Some po" and r: "represents h po P"
  shows "learner_inv h (Suc (length h))
           (h @ [Rec (weights P), Prefs (po\<lparr>weights_ref := length h\<rparr>)]) P"
proof -
  let ?h1 = "h @ [Rec (weights P)]"
  let ?po' = "po\<lparr>weights_ref := length h\<rparr>"
  let ?h2 = "?h1 @ [Prefs ?po']"
  have "represents ?h1 po P"
    using r by (rule represents_append)
  moreover have "get_rec ?h1 (length h) = Some (weights P)"
    by (rule get_rec_new)
  ultimately have "represents ?h1 ?po' P"
    by (simp add: represents_def)
  then have "represents ?h2 ?po' P"
    by (rule represents_append)
  moreover have "get_prefs ?h2 (Suc (length h)) = Some ?po'"
    using get_prefs_new [of ?h1 ?po'] by simp
  ultimately have "learner_inv h (Suc (length h)) ?h2 P"
    by (auto simp: learner_inv_def)
  then show ?thesis
    by simp
qed

lemma when_set_weight_step:
  assumes "learner_inv h0 np h Q"
  shows "\<exists>h'. when_heap c (set_weight_heap np k f) h = Some h' \<and>
              learner_inv h0 np h' (if c then set_weight k (f (weights Q k)) Q else Q)"
  using when_heap_step [where s = "set_weight_heap np k f", OF assms set_weight_heap_step [OF assms]] .

lemma when_set_field_step:
  assumes "learner_inv h0 np h Q"
    and "\<exists>h'. set_field_heap np g h = Some h' \<and> learner_inv h0 np h' Q'"
  shows "\<exists>h'. when_heap c (set_field_heap np g) h = Some h' \<and>
              learner_inv h0 np h' (if c then Q' else Q)"
  using when_heap_step [where s = "set_field_heap np g", OF assms] .

lemma learnFromFeedback_heap_run:
  assumes "get_prefs h prefs = Some po" and "get_rec h (weights_ref po) = Some w"
    and "when_heap liked
           (set_weight_heap (Suc (length h)) ''keywordMatch'' (\<lambda>x. clamp (x + 0.05) 0.6 2.2))
           (h @ [Rec w, Prefs (po\<lparr>weights_ref := length h\<rparr>)]) = Some h3"
    and "when_heap (\<not> liked)
           (set_weight_heap (Suc (length h)) ''negativeKeyword''
              (\<lambda>x. clamp (x - 0.05) (- 3) (- 0.6))) h3 = Some h4"
    and "forEach (learn_tag_heap liked (Suc (length h))) (tags_to_learn j sel) h4 = Some h5"
    and "when_heap (str_includes (toLowerCase notes) ''salary'' \<or>
                    str_includes (toLowerCase notes) ''pay'')
           (set_weight_heap (Suc (length h)) ''salary''
              (\<lambda>x. clamp (x + (if liked then 0.15 else - 0.12)) 0.2 2.4)) h5 = Some h6"
    and "when_heap (str_includes (toLowerCase notes) ''remote'' \<or>
                    str_includes (toLowerCase notes) ''hybrid'')
           (set_weight_heap (Suc (length h)) ''remote''
              (\<lambda>x. clamp (x + (if liked then 0.15 else - 0.12)) 0 1.4)) h6 = Some h7"
    and "when_heap (str_includes (toLowerCase notes) ''leadership'' \<or>
                    str_includes (toLowerCase notes) ''manager'' \<or>
                    str_includes (toLowerCase notes) ''director'')
           (set_weight_heap (Suc (length h)) ''seniority''
              (\<lambda>x. clamp (x + (if liked then 0.15 else - 0.12)) 0.2 2)) h7 = Some h8"
    and "when_heap (str_includes (toLowerCase notes) ''consult'')
           (set_field_heap (Suc (length h)) (\<lambda>po. po\<lparr>consulting_val := liked\<rparr>)) h8 = Some h9"
    and "when_heap (str_includes (toLowerCase notes) ''university'' \<or>
                    str_includes (toLowerCase notes) ''academic'')
           (set_field_heap (Suc (length h)) (\<lambda>po. po\<lparr>academia_val := liked\<rparr>)) h9 = Some h10"
  shows "learnFromFeedback_heap h prefs j liked notes sel = Some (Suc (length h), h10)"
  unfolding learnFromFeedback_heap_def Let_def alloc_def prod.case
  apply (simp only: assms(1,2) Option.bind.bind_lunit)
  apply (simp only: length_append list.size add_Suc_right add_0_right append_assoc append_Cons append_Nil)
  apply (simp only: assms Option.bind.bind_lunit)
  done

text \<open>
  Claim C4. A call of the learner on a heap where \<open>prefs\<close> is a profile returns a new
  profile and leaves the input profile as it was: the call returns the address of an
  object that did not exist before, every cell of the heap before the call is unchanged
  after it, so that \<open>prefs\<close> still denotes the same profile, with its keyword lists and its
  weights, and the new address denotes the profile that \<open>learnFromFeedback\<close> computes on
  values.
\<close>

theorem learnFromFeedback_heap_frame:
  assumes "read_prefs h prefs = Some P"
  shows "\<exists>newPrefs h'.
           learnFromFeedback_heap h prefs j liked notes sel = Some (newPrefs, h') \<and>
           take (length h) h' = h \<and>
           length h \<le> newPrefs \<and>
           read_prefs h' prefs = Some P \<and>
           read_prefs h' newPrefs = Some (learnFromFeedback P j liked notes sel)"
proof -
  from assms obtain po where po: "get_prefs h prefs = Some po" and r: "represents h po P"
    by (auto simp: read_prefs_iff)
  from r have w: "get_rec h (weights_ref po) = Some (weights P)"
    by (simp add: represents_def)
  let ?np = "Suc (length h)"
  let ?h2 = "h @ [Rec (weights P), Prefs (po\<lparr>weights_ref := length h\<rparr>)]"
  let ?delta = "(if liked then 0.15 else - 0.12) :: real"
  let ?n = "toLowerCase notes"
  define p1 where "p1 =
    (if liked
     then set_weight ''keywordMatch'' (clamp (weights P ''keywordMatch'' + 0.05) 0.6 2.2) P
     else P)"
  define p2 where "p2 =
    (if \<not> liked
     then set_weight ''negativeKeyword'' (clamp (weights p1 ''negativeKeyword'' - 0.05) (- 3) (- 0.6)) p1
     else p1)"
  define p3 where "p3 = fold (learn_tag liked) (tags_to_learn j sel) p2"
  define p4 where "p4 =
    (if str_includes ?n ''salary'' \<or> str_includes ?n ''pay''
     then set_weight ''salary'' (clamp (weights p3 ''salary'' + ?delta) 0.2 2.4) p3
     else p3)"
  define p5 where "p5 =
    (if str_includes ?n ''remote'' \<or> str_includes ?n ''hybrid''
     then set_weight ''remote'' (clamp (weights p4 ''remote'' + ?delta) 0 1.4) p4
     else p4)"
  define p6 where "p6 =
    (if str_includes ?n ''leadership'' \<or> str_includes ?n ''manager'' \<or>
        str_includes ?n ''director''
     then set_weight ''seniority'' (clamp (weights p5 ''seniority'' + ?delta) 0.2 2) p5
     else p5)"
  define p7 where "p7 = (if str_includes ?n ''consult'' then p6\<lparr>consulting := liked\<rparr> else p6)"
  define p8 where "p8 =
    (if str_includes ?n ''university'' \<or> str_includes ?n ''academic''
     then p7\<lparr>academia := liked\<rparr> else p7)"
  have i2: "learner_inv h ?np ?h2 P"
    using po r by (rule learner_inv_start)
  obtain h3 where e3: "when_heap liked
        (set_weight_heap ?np ''keywordMatch'' (\<lambda>x. clamp (x + 0.05) 0.6 2.2)) ?h2 = Some h3"
    and i3: "learner_inv h ?np h3 p1"
    using when_set_weight_step [OF i2, where c = liked and k = "''keywordMatch''"
        and f = "\<lambda>x. clamp (x + 0.05) 0.6 2.2"]
    unfolding p1_def by blast
  obtain h4 where e4: "when_heap (\<not> liked)
        (set_weight_heap ?np ''negativeKeyword'' (\<lambda>x. clamp (x - 0.05) (- 3) (- 0.6))) h3 = Some h4"
    and i4: "learner_inv h ?np h4 p2"
    using when_set_weight_step [OF i3, where c = "\<not> liked" and k = "''negativeKeyword''"
        and f = "\<lambda>x. clamp (x - 0.05) (- 3) (- 0.6)"]
    unfolding p2_def by blast
  obtain h5 where e5: "forEach (learn_tag_heap liked ?np) (tags_to_learn j sel) h4 = Some h5"
    and i5: "learner_inv h ?np h5 p3"
    using forEach_step [of h ?np "learn_tag_heap liked ?np" "learn_tag liked", OF learn_tag_heap_step i4]
    unfolding p3_def by blast
  obtain h6 where e6: "when_heap (str_includes ?n ''salary'' \<or> str_includes ?n ''pay'')
        (set_weight_heap ?np ''salary'' (\<lambda>x. clamp (x + ?delta) 0.2 2.4)) h5 = Some h6"
    and i6: "learner_inv h ?np h6 p4"
    using when_set_weight_step [OF i5, where k = "''salary''"
        and c = "str_includes ?n ''salary'' \<or> str_includes ?n ''pay''"
        and f = "\<lambda>x. clamp (x + ?delta) 0.2 2.4"]
    unfolding p4_def by blast
  obtain h7 where e7: "when_heap (str_includes ?n ''remote'' \<or> str_includes ?n ''hybrid'')
        (set_weight_heap ?np ''remote'' (\<lambda>x. clamp (x + ?delta) 0 1.4)) h6 = Some h7"
    and i7: "learner_inv h ?np h7 p5"
    using when_set_weight_step [OF i6, where k = "''remote''"
        and c = "str_includes ?n ''remote'' \<or> str_includes ?n ''hybrid''"
        and f = "\<lambda>x. clamp (x + ?delta) 0 1.4"]
    unfolding p5_def by blast
  obtain h8 where e8: "when_heap (str_includes ?n ''leadership'' \<or> str_includes ?n ''manager'' \<or>
                                str_includes ?n ''director'')
        (set_weight_heap ?np ''seniority'' (\<lambda>x. clamp (x + ?delta) 0.2 2)) h7 = Some h8"
    and i8: "learner_inv h ?np h8 p6"
    using when_set_weight_step [OF i7, where k = "''seniority''"
        and c = "str_includes ?n ''leadership'' \<or> str_includes ?n ''manager'' \<or>
                 str_includes ?n ''director''"
        and f = "\<lambda>x. clamp (x + ?delta) 0.2 2"]
    unfolding p6_def by blast
  have "\<exists>h'. set_field_heap ?np (\<lambda>po. po\<lparr>consulting_val := liked\<rparr>) h8 = Some h' \<and>
             learner_inv h ?np h' (p6\<lparr>consulting := liked\<rparr>)"
    using i8 by (rule set_field_heap_step) (simp_all add: represents_def)
  from when_set_field_step [OF i8 this, where c = "str_includes ?n ''consult''"]
  obtain h9 where e9: "when_heap (str_includes ?n ''consult'')
        (set_field_heap ?np (\<lambda>po. po\<lparr>consulting_val := liked\<rparr>)) h8 = Some h9"
    and i9: "learner_inv h ?np h9 p7"
    unfolding p7_def by blast
  have "\<exists>h'. set_field_heap ?np (\<lambda>po. po\<lparr>academia_val := liked\<rparr>) h9 = Some h' \<and>
             learner_inv h ?np h' (p7\<lparr>academia := liked\<rparr>)"
    using i9 by (rule set_field_heap_step) (simp_all add: represents_def)
  from when_set_field_step [OF i9 this,
      where c = "str_includes ?n ''university'' \<or> str_includes ?n ''academic''"]
  obtain h10 where e10: "when_heap (str_includes ?n ''university'' \<or> str_includes ?n ''academic'')
        (set_field_heap ?np (\<lambda>po. po\<lparr>academia_val := liked\<rparr>)) h9 = Some h10"
    and i10: "learner_inv h ?np h10 p8"
    unfolding p8_def by blast
  have run: "learnFromFeedback_heap h prefs j liked notes sel = Some (?np, h10)"
    using po w e3 e4 e5 e6 e7 e8 e9 e10 by (rule learnFromFeedback_heap_run)
  have val: "learnFromFeedback P j liked notes sel = p8"
    by (simp only: learnFromFeedback_def Let_def p1_def p2_def p3_def p4_def p5_def p6_def
        p7_def p8_def)
  from i10 have t: "take (length h) h10 = h" and rd: "read_prefs h10 ?np = Some p8"
    by (auto simp: learner_inv_def read_prefs_iff)
  have "length h \<le> ?np" by simp
  with run t read_prefs_take [OF t assms] rd show ?thesis
    unfolding val by blast
qed

theorem learnFromFeedback_heap_frame_witness:
  "read_prefs default_heap 8 = Some defaultPreferences \<and>
   (\<exists>newPrefs h'.
      learnFromFeedback_heap default_heap 8 sample_job True ''pay'' [''Culture''] = Some (newPrefs, h') \<and>
      take (length default_heap) h' = default_heap \<and>
      length default_heap \<le> newPrefs \<and>
      read_prefs h' 8 = Some defaultPreferences \<and>
      read_prefs h' newPrefs =
        Some (learnFromFeedback defaultPreferences sample_job True ''pay'' [''Culture'']))"
proof -
  have h: "read_prefs default_heap 8 = Some defaultPreferences"
    by (simp add: read_prefs_def get_prefs_def get_arr_def get_rec_def default_heap_def
        defaultPreferences_def)
  show ?thesis
    using h learnFromFeedback_heap_frame [OF h] by (rule conjI)
qed

end
